theory Spec2Isabelle
  imports Main "HOL-Library.Word"
begin

section \<open>The compiler oracle of HotSpot: compilerOracle.cpp\<close>

text \<open>
  The development follows \<^verbatim>\<open>src/hotspot/share/compiler/compilerOracle.cpp\<close>.
  C strings are HOL strings (the characters before the terminating NUL); the
  linked list of matchers is a HOL list whose head is \<^verbatim>\<open>option_list\<close>; the
  static variables \<^verbatim>\<open>option_list\<close>, \<^verbatim>\<open>any_set\<close>, \<^verbatim>\<open>_quiet\<close> and the
  console \<^verbatim>\<open>tty\<close> are the fields of one state record that every mutating
  function takes and returns. The model is the debug build: a failing
  \<^verbatim>\<open>assert\<close>, \<^verbatim>\<open>ShouldNotReachHere()\<close> and a call through a NULL matcher end
  the run with an error value. Where the code moves its pointer over the
  terminating NUL of a line it goes on with the bytes that lie behind the
  terminator; these bytes are a parameter \<open>behind\<close> of the functions concerned,
  and only a read behind the last of them ends the run with an error value.
\<close>

subsection \<open>Enumerations and tables of compilerOracle.hpp\<close>

text \<open>
  The header with the macros \<^verbatim>\<open>OPTION_TYPES\<close> and \<^verbatim>\<open>COMPILECOMMAND_OPTIONS\<close>
  is not part of the sources at hand. The enumerators that the code names are
  constructors here; \<open>Custom n\<close> stands for any further row of
  \<^verbatim>\<open>COMPILECOMMAND_OPTIONS\<close>. The tables generated from the macros
  (\<^verbatim>\<open>command_names\<close>, \<^verbatim>\<open>command2types\<close>, \<^verbatim>\<open>command2variant\<close>,
  \<^verbatim>\<open>optiontype_names\<close>) are parameters, collected in the record \<open>env\<close>
  below.
\<close>

datatype OptionType = Intx | Uintx | Bool | Ccstr | Ccstrlist | Double | Unknown_type

datatype CompileCommand =
  Help | Quiet | Log | Print | Inline | DontInline | Exclude | Break | CompileOnly | Option
  | Custom nat | Unknown

datatype CompileCommandVariant = Basic | Trivial | Standard | Legacy

text \<open>The C++ types at which the templates are instantiated.\<close>

datatype TypeName = T_intx | T_uintx | T_bool | T_ccstr | T_double

fun get_type_for :: "TypeName \<Rightarrow> OptionType" where
  "get_type_for T_intx = Intx"
| "get_type_for T_uintx = Uintx"
| "get_type_for T_bool = Bool"
| "get_type_for T_ccstr = Ccstr"
| "get_type_for T_double = Double"

subsection \<open>Outcomes that end the run\<close>

datatype vm_error =
  assert_failed string
  | ShouldNotReachHere
  | null_pointer_dereference
  | read_outside_array
  | index_out_of_bounds
  | inactive_union_member
  | buffer_overflow
  | uninitialised_read

subsection \<open>The matcher record\<close>

text \<open>
  \<^verbatim>\<open>intx\<close> and \<^verbatim>\<open>uintx\<close> are 64-bit words. A \<^verbatim>\<open>double\<close> is only ever
  produced by \<^verbatim>\<open>atof\<close> and stored, so its type is left unspecified.
\<close>

type_synonym intx = "64 word"
type_synonym uintx = "64 word"
typedecl double

text \<open>Equality of doubles is plain equality; nothing computes with it.\<close>

instantiation double :: equal
begin

definition equal_double :: "double \<Rightarrow> double \<Rightarrow> bool" where
  "equal_double x y = (x = y)"

instance
  by standard (simp add: equal_double_def)

end

text \<open>
  A value together with its C++ type \<open>T\<close>: the argument \<^verbatim>\<open>T value\<close> of the
  templates, and the live member of the union \<^verbatim>\<open>_u\<close>. The union itself is
  \<open>None\<close> as long as it is only zeroed by the constructor's \<^verbatim>\<open>memset\<close>.
\<close>

datatype option_value =
  bool_value bool
  | intx_value intx
  | uintx_value uintx
  | double_value double
  | ccstr_value string

type_synonym union_u = "option_value option"

text \<open>\<^verbatim>\<open>get_type_for<T>()\<close> for the type \<open>T\<close> of a value.\<close>

fun type_of_value :: "option_value \<Rightarrow> OptionType" where
  "type_of_value (bool_value b) = get_type_for T_bool"
| "type_of_value (intx_value i) = get_type_for T_intx"
| "type_of_value (uintx_value i) = get_type_for T_uintx"
| "type_of_value (double_value d) = get_type_for T_double"
| "type_of_value (ccstr_value s) = get_type_for T_ccstr"

datatype Mode = Exact | Prefix | Suffix | Substring | Any | Unknown_mode

text \<open>
  Modelled from the spec: the base class \<^verbatim>\<open>MethodMatcher\<close> (methodMatcher.hpp is
  not at hand) is a Target Pattern, "an owner-scope matcher + a member-scope
  matcher + an optional signature matcher"; its five fields are the ones
  \<^verbatim>\<open>TypedMethodOptionMatcher::clone\<close> copies.
\<close>

record MethodMatcher =
  class_mode :: Mode
  class_name :: "string option"
  method_mode :: Mode
  method_name :: "string option"
  signature :: "string option"

record TypedMethodOptionMatcher = MethodMatcher +
  m_option :: CompileCommand
  m_type :: OptionType
  m_u :: union_u

text \<open>
  Modelled from the spec: the base constructor \<^verbatim>\<open>MethodMatcher()\<close> is in
  methodMatcher.cpp; "construct() gives a default record with no pattern,
  unknown kind, zero value". The rest is the constructor
  \<^verbatim>\<open>TypedMethodOptionMatcher()\<close> of the file.
\<close>

definition TypedMethodOptionMatcher_new :: TypedMethodOptionMatcher where
  "TypedMethodOptionMatcher_new =
     \<lparr>class_mode = Exact, class_name = None, method_mode = Exact, method_name = None,
      signature = None, m_option = Unknown, m_type = Unknown_type, m_u = None\<rparr>"

text \<open>\<^verbatim>\<open>init(cc_option, type, next)\<close>; the link \<^verbatim>\<open>_next\<close> is the tail of the list.\<close>

definition init :: "CompileCommand \<Rightarrow> OptionType \<Rightarrow> TypedMethodOptionMatcher \<Rightarrow> TypedMethodOptionMatcher" where
  "init cc_option ty m = m\<lparr>m_option := cc_option, m_type := ty\<rparr>"

definition set_value :: "option_value \<Rightarrow> TypedMethodOptionMatcher \<Rightarrow> TypedMethodOptionMatcher" where
  "set_value v m = m\<lparr>m_u := Some v\<rparr>"

text \<open>
  \<^verbatim>\<open>value<T>()\<close> reads the member of the union that belongs to \<open>T\<close>; reading a
  member that was not the last one written has no defined result.
\<close>

definition value_T :: "TypeName \<Rightarrow> TypedMethodOptionMatcher \<Rightarrow> vm_error + option_value" where
  "value_T T m =
     (case m_u m of
        Some v \<Rightarrow> if type_of_value v = get_type_for T then Inr v else Inl inactive_union_member
      | None \<Rightarrow> Inl inactive_union_member)"

text \<open>\<^verbatim>\<open>clone()\<close> copies the pattern and leaves option, type and value as constructed.\<close>

definition clone :: "TypedMethodOptionMatcher \<Rightarrow> TypedMethodOptionMatcher" where
  "clone m =
     TypedMethodOptionMatcher_new
       \<lparr>class_mode := class_mode m, class_name := class_name m,
        method_mode := method_mode m, method_name := method_name m,
        signature := signature m\<rparr>"

subsection \<open>Console output\<close>

text \<open>
  What is sent to \<^verbatim>\<open>tty\<close>, in order. \<open>Tty_print_base\<close> is the external
  \<^verbatim>\<open>print_base(tty)\<close>; \<open>Tty_option_value ty name v\<close> is the formatted line
  \<^verbatim>\<open>" <ty> <name> = <v>"\<close> of \<^verbatim>\<open>TypedMethodOptionMatcher::print\<close>;
  \<open>Tty_usage\<close> is the fixed text of \<^verbatim>\<open>usage()\<close>.
\<close>

datatype tty_out =
  Tty_print string
  | Tty_print_cr string
  | Tty_cr
  | Tty_print_base MethodMatcher
  | Tty_option_value OptionType string union_u
  | Tty_usage

subsection \<open>What the file takes from outside\<close>

record 'm env =
  commands :: "CompileCommand list"
  command_names :: "CompileCommand \<Rightarrow> string"
  command2types :: "CompileCommand \<Rightarrow> OptionType"
  command2variant :: "CompileCommand \<Rightarrow> CompileCommandVariant"
  optiontype_names :: "OptionType \<Rightarrow> string"
  MethodMatcher_parse_method_pattern :: "string \<Rightarrow> (string + MethodMatcher) \<times> string"
  matches :: "MethodMatcher \<Rightarrow> 'm \<Rightarrow> bool"
  sscanf_INTX_FORMAT :: "string \<Rightarrow> (intx \<times> nat) option"
  sscanf_UINTX_FORMAT :: "string \<Rightarrow> (uintx \<times> nat) option"
  atof :: "string \<Rightarrow> double"
  LogCompilation :: bool
  Verbose :: bool
  PrintVMOptions :: bool

text \<open>
  \<^item> \<open>commands\<close>: the enumerators \<open>0 .. Count - 1\<close> in the order of the rows of
    \<^verbatim>\<open>COMPILECOMMAND_OPTIONS\<close>; the three tables are indexed by them. The
    tables are total functions here. The code indexes them with a command
    that it has compared with \<open>Unknown\<close> before, except in
    \<^verbatim>\<open>has_option_value\<close>.
  \<^item> \<open>MethodMatcher_parse_method_pattern line\<close>: the external
    \<^verbatim>\<open>MethodMatcher::parse_method_pattern(line, error_msg, matcher)\<close>. It gives
    the error message or the pattern it read, and the line as it leaves it
    (the pointer is passed by reference).
  \<^item> \<open>matches\<close>: the external \<^verbatim>\<open>MethodMatcher::matches(method)\<close>; \<open>'m\<close> is the
    type of targets (\<^verbatim>\<open>methodHandle\<close>).
  \<^item> \<open>sscanf_INTX_FORMAT\<close>, \<open>sscanf_UINTX_FORMAT\<close>: \<^verbatim>\<open>sscanf\<close> with the
    platform's integer formats followed by \<^verbatim>\<open>%n\<close>: the value and the bytes
    read, or nothing when no number is read.
  \<^item> \<open>LogCompilation\<close>, \<open>Verbose\<close>, \<open>PrintVMOptions\<close>: flags of the VM.
\<close>

subsection \<open>The store\<close>

record store =
  option_list :: "TypedMethodOptionMatcher list"
  any_set :: bool
  quiet :: bool
  tty :: "tty_out list"

definition initial_store :: store where
  "initial_store = \<lparr>option_list = [], any_set = False, quiet = False, tty = []\<rparr>"

definition tty_print :: "tty_out list \<Rightarrow> store \<Rightarrow> store" where
  "tty_print out st = st\<lparr>tty := tty st @ out\<rparr>"

text \<open>\<^verbatim>\<open>TypedMethodOptionMatcher::match\<close>: the loop over \<^verbatim>\<open>current\<close>.\<close>

fun match :: "'m env \<Rightarrow> TypedMethodOptionMatcher list \<Rightarrow> 'm \<Rightarrow> CompileCommand \<Rightarrow> OptionType
    \<Rightarrow> TypedMethodOptionMatcher option" where
  "match env [] method opt ty = None"
| "match env (current # next) method opt ty =
     (if m_option current = opt then
        (if matches env (MethodMatcher.truncate current) method then Some current
         else match env next method opt ty)
      else match env next method opt ty)"

text \<open>
  \<^verbatim>\<open>add_option_string<T>(matcher, cc_option, value)\<close>. The matcher is \<open>None\<close>
  for a NULL pointer. The first assertion (\<^verbatim>\<open>matcher != option_list\<close>) compares
  addresses: a matcher that a caller has just allocated differs from the head
  of the list, and a NULL matcher equals the head exactly when the list is
  empty.
\<close>

definition LogCompilation_warning :: "tty_out list" where
  "LogCompilation_warning =
     [Tty_print_cr ''Warning:  +LogCompilation must be enabled in order for individual methods to be logged with '',
      Tty_print_cr ''          CompileCommand=log,<method pattern>'']"

definition stored_type :: "OptionType \<Rightarrow> OptionType" where
  "stored_type ty = (if ty = Ccstrlist then Ccstr else ty)"

definition add_option_string :: "'m env \<Rightarrow> TypedMethodOptionMatcher option \<Rightarrow> CompileCommand
    \<Rightarrow> option_value \<Rightarrow> store \<Rightarrow> vm_error + store" where
  "add_option_string env matcher cc_option v st =
     (let st1 = (if cc_option = Log \<and> \<not> LogCompilation env
                 then tty_print LogCompilation_warning st else st);
          ty = stored_type (command2types env cc_option)
      in if matcher = None \<and> option_list st = []
           then Inl (assert_failed ''No circular lists please'')
         else if ty \<noteq> type_of_value v then Inl (assert_failed ''sanity'')
         else (case matcher of
                 None \<Rightarrow> Inl null_pointer_dereference
               | Some m \<Rightarrow>
                   Inr (st1\<lparr>option_list := set_value v (init cc_option ty m) # option_list st1,
                            any_set := (if cc_option \<noteq> DontInline \<and> cc_option \<noteq> Inline
                                           \<and> cc_option \<noteq> Log
                                        then True else any_set st1)\<rparr>)))"

text \<open>
  \<^verbatim>\<open>CompilerOracle::has_option_value<T>(method, option, value, verify_type)\<close>.
  The reference parameter \<^verbatim>\<open>value\<close> is passed in and returned beside the
  result. The sentinel \<open>Unknown\<close> lies behind the end of \<^verbatim>\<open>command2types\<close>.
\<close>

definition has_option_value :: "'m env \<Rightarrow> store \<Rightarrow> 'm \<Rightarrow> CompileCommand \<Rightarrow> TypeName \<Rightarrow> option_value
    \<Rightarrow> bool \<Rightarrow> vm_error + (bool \<times> option_value)" where
  "has_option_value env st method opt T value_in verify_type =
     (if opt = Unknown then Inl index_out_of_bounds
      else
        (let ty = stored_type (command2types env opt) in
         if verify_type \<and> ty \<noteq> get_type_for T then Inr (False, value_in)
         else if \<not> verify_type \<and> ty \<noteq> get_type_for T
           then Inl (assert_failed ''Value type must match command type'')
         else (case match env (option_list st) method opt ty of
                 Some m \<Rightarrow>
                   (case value_T T m of
                      Inl e \<Rightarrow> Inl e
                    | Inr v \<Rightarrow> Inr (True, v))
               | None \<Rightarrow> Inr (False, value_in))))"

fun the_bool :: "option_value \<Rightarrow> bool" where
  "the_bool (bool_value b) = b"
| "the_bool v = False"

text \<open>
  Modelled from the spec: the default of \<^verbatim>\<open>verify_type\<close> is declared in
  compilerOracle.hpp; it is the strict mode, which "asserts the requested type
  matches the kind's declared Value Kind". \<^verbatim>\<open>check_predicate\<close> calls
  \<^verbatim>\<open>has_option_value\<close> without the argument.
\<close>

definition check_predicate :: "'m env \<Rightarrow> store \<Rightarrow> CompileCommand \<Rightarrow> 'm \<Rightarrow> vm_error + bool" where
  "check_predicate env st command method =
     (case has_option_value env st method command T_bool (bool_value False) False of
        Inl e \<Rightarrow> Inl e
      | Inr (found, v) \<Rightarrow> if found then Inr (the_bool v) else Inr False)"

fun has_command_list :: "TypedMethodOptionMatcher list \<Rightarrow> CompileCommand \<Rightarrow> bool" where
  "has_command_list [] command = False"
| "has_command_list (m # next) command =
     (if m_option m = command then True else has_command_list next command)"

definition has_command :: "store \<Rightarrow> CompileCommand \<Rightarrow> bool" where
  "has_command st command = has_command_list (option_list st) command"

definition has_any_option :: "store \<Rightarrow> bool" where
  "has_any_option st = any_set st"

definition should_exclude :: "'m env \<Rightarrow> store \<Rightarrow> 'm \<Rightarrow> vm_error + bool" where
  "should_exclude env st method =
     (case check_predicate env st Exclude method of
        Inl e \<Rightarrow> Inl e
      | Inr excluded \<Rightarrow>
          if excluded then Inr True
          else if has_command st CompileOnly then
            (case check_predicate env st CompileOnly method of
               Inl e \<Rightarrow> Inl e
             | Inr only \<Rightarrow> Inr (\<not> only))
          else Inr False)"

definition should_log :: "'m env \<Rightarrow> store \<Rightarrow> 'm \<Rightarrow> vm_error + bool" where
  "should_log env st method =
     (if \<not> LogCompilation env then Inr False
      else if \<not> has_command st Log then Inr True
      else check_predicate env st Log method)"

subsection \<open>The conversions of \<^verbatim>\<open>sscanf\<close> that the file uses\<close>

text \<open>
  A scanset \<^verbatim>\<open>%[...]\<close> is a predicate on characters. The ranges are those of
  the C locale (ASCII).
\<close>

definition in_range :: "char \<Rightarrow> char \<Rightarrow> char \<Rightarrow> bool" where
  "in_range lo hi c = (of_char lo \<le> (of_char c :: nat) \<and> (of_char c :: nat) \<le> of_char hi)"

text \<open>\<^verbatim>\<open>[a-zA-Z0-9]\<close>\<close>
definition set_alnum :: "char \<Rightarrow> bool" where
  "set_alnum c = (in_range CHR ''a'' CHR ''z'' c \<or> in_range CHR ''A'' CHR ''Z'' c
                  \<or> in_range CHR ''0'' CHR ''9'' c)"

text \<open>\<^verbatim>\<open>[_a-zA-Z0-9]\<close>\<close>
definition set_ccstr :: "char \<Rightarrow> bool" where
  "set_ccstr c = (c = CHR ''_'' \<or> set_alnum c)"

text \<open>
  \<^verbatim>\<open>[_a-zA-Z0-9+\\-]\<close> as the C string literal spells it: the scanset holds the
  backslash and, as its last character, the hyphen.
\<close>
definition set_ccstrlist :: "char \<Rightarrow> bool" where
  "set_ccstrlist c = (set_ccstr c \<or> c = CHR ''+'' \<or> c = CHR 0x5C \<or> c = CHR ''-'')"

text \<open>\<^verbatim>\<open>[a-zA-Z]\<close>\<close>
definition set_alpha :: "char \<Rightarrow> bool" where
  "set_alpha c = (in_range CHR ''a'' CHR ''z'' c \<or> in_range CHR ''A'' CHR ''Z'' c)"

text \<open>\<^verbatim>\<open>[0-9]\<close>\<close>
definition set_digit :: "char \<Rightarrow> bool" where
  "set_digit c = in_range CHR ''0'' CHR ''9'' c"

text \<open>\<^verbatim>\<open>[ \t]\<close>\<close>
definition set_blank :: "char \<Rightarrow> bool" where
  "set_blank c = (c = CHR '' '' \<or> c = CHR 0x09)"

text \<open>\<^verbatim>\<open>[ /\t]\<close>\<close>
definition set_blank_slash :: "char \<Rightarrow> bool" where
  "set_blank_slash c = (c = CHR '' '' \<or> c = CHR ''/'' \<or> c = CHR 0x09)"

text \<open>
  \<^verbatim>\<open>sscanf(line, "%<w>[set]%n", token, &bytes_read) == 1\<close>: the longest prefix of
  the line in the set, cut at \<open>w\<close> characters; the conversion fails on an empty
  match, and then \<^verbatim>\<open>%n\<close> is not reached.
\<close>

definition sscanf_set :: "nat \<Rightarrow> (char \<Rightarrow> bool) \<Rightarrow> string \<Rightarrow> (string \<times> nat) option" where
  "sscanf_set w S line =
     (let token = take w (takeWhile S line)
      in if token = [] then None else Some (token, length token))"

text \<open>\<^verbatim>\<open>sscanf(line, "%*[ \t]%<w>[set]%n", token, &bytes_read) == 1\<close>\<close>

definition sscanf_blank_set :: "nat \<Rightarrow> (char \<Rightarrow> bool) \<Rightarrow> string \<Rightarrow> (string \<times> nat) option" where
  "sscanf_blank_set w S line =
     (let blanks = takeWhile set_blank line
      in if blanks = [] then None
         else (case sscanf_set w S (drop (length blanks) line) of
                 None \<Rightarrow> None
               | Some (token, n) \<Rightarrow> Some (token, length blanks + n)))"

text \<open>\<^verbatim>\<open>sscanf(line, "%255[0-9]%*[ /\t]%255[0-9]%n", b0, b1, &bytes_read) == 2\<close>\<close>

definition sscanf_double :: "string \<Rightarrow> (string \<times> string \<times> nat) option" where
  "sscanf_double line =
     (case sscanf_set 255 set_digit line of
        None \<Rightarrow> None
      | Some (b0, n0) \<Rightarrow>
          (let seps = takeWhile set_blank_slash (drop n0 line)
           in if seps = [] then None
              else (case sscanf_set 255 set_digit (drop (n0 + length seps) line) of
                      None \<Rightarrow> None
                    | Some (b1, n1) \<Rightarrow> Some (b0, b1, n0 + length seps + n1))))"

text \<open>
  \<^verbatim>\<open>skip_whitespace\<close>: \<^verbatim>\<open>"%*[ \t]%n"\<close>; without a blank the count stays at its
  initial value 0.
\<close>

definition skip_whitespace :: "string \<Rightarrow> nat" where
  "skip_whitespace line = length (takeWhile set_blank line)"

text \<open>\<^verbatim>\<open>jio_snprintf(buf, size, ...)\<close> keeps at most \<open>size - 1\<close> characters.\<close>

definition jio_snprintf :: "nat \<Rightarrow> string \<Rightarrow> string" where
  "jio_snprintf buf_size s = take (buf_size - 1) s"

subsection \<open>Names of commands and types\<close>

definition parse_command_name :: "'m env \<Rightarrow> string \<Rightarrow> CompileCommand \<times> nat" where
  "parse_command_name env line =
     (case sscanf_set 255 set_alnum line of
        Some (command, bytes_read) \<Rightarrow>
          (case find (\<lambda>c. command = command_names env c) (commands env) of
             Some c \<Rightarrow> (c, bytes_read)
           | None \<Rightarrow> (Unknown, bytes_read))
      | None \<Rightarrow> (Unknown, 0))"

definition parse_option_type :: "string \<Rightarrow> OptionType" where
  "parse_option_type option_type =
     (if option_type = ''intx'' then Intx
      else if option_type = ''uintx'' then Uintx
      else if option_type = ''bool'' then Bool
      else if option_type = ''ccstr'' then Ccstr
      else if option_type = ''ccstrlist'' then Ccstrlist
      else if option_type = ''double'' then Double
      else Unknown_type)"

definition string_to_option :: "'m env \<Rightarrow> string \<Rightarrow> CompileCommand" where
  "string_to_option env name = fst (parse_command_name env name)"

subsection \<open>The character buffer of the string-list branch\<close>

text \<open>
  \<^verbatim>\<open>NEW_RESOURCE_ARRAY(char, n)\<close> gives \<open>n\<close> bytes that are not initialised
  (\<open>None\<close>). Writes are checked against the size of the array.
\<close>

type_synonym buffer = "char option list"

definition NUL :: char where
  "NUL = CHR 0x00"

definition NEW_RESOURCE_ARRAY :: "nat \<Rightarrow> buffer" where
  "NEW_RESOURCE_ARRAY n = replicate n None"

definition poke :: "buffer \<Rightarrow> nat \<Rightarrow> char \<Rightarrow> vm_error + buffer" where
  "poke buf i c = (if i < length buf then Inr (buf[i := Some c]) else Inl buffer_overflow)"

text \<open>A \<^verbatim>\<open>%[\<close> conversion stores the token and a terminating NUL at its argument.\<close>

fun store_token :: "buffer \<Rightarrow> nat \<Rightarrow> string \<Rightarrow> vm_error + buffer" where
  "store_token buf i [] = poke buf i NUL"
| "store_token buf i (c # cs) =
     (case poke buf i c of
        Inl e \<Rightarrow> Inl e
      | Inr buf' \<Rightarrow> store_token buf' (Suc i) cs)"

text \<open>The C string that starts at the first byte of the buffer (what \<^verbatim>\<open>strdup\<close> copies).\<close>

fun c_string :: "buffer \<Rightarrow> vm_error + string" where
  "c_string [] = Inl buffer_overflow"
| "c_string (None # buf) = Inl uninitialised_read"
| "c_string (Some c # buf) =
     (if c = NUL then Inr []
      else (case c_string buf of
              Inl e \<Rightarrow> Inl e
            | Inr s \<Rightarrow> Inr (c # s)))"

subsection \<open>The bytes behind the terminator of a line\<close>

text \<open>
  \<^verbatim>\<open>parse_from_string\<close> and \<^verbatim>\<open>parse_from_file\<close> hand each line over in their
  array \<^verbatim>\<open>token[1024]\<close>. Behind the terminating NUL of the line the array holds
  what was there before: the tails of earlier, longer lines, or bytes that were
  never written. \<open>behind\<close> lists the C strings that lie behind the terminator
  inside the array, in the order of their addresses; a pointer into the array
  is the C string at the pointer together with the strings behind it. Behind
  the last of them the array ends or holds no further NUL, and a read there
  counts as a read outside the array.
\<close>

text \<open>\<^verbatim>\<open>line++\<close> followed by a read at the new place. The byte stepped over is not looked at.\<close>

definition increment :: "string \<Rightarrow> string list \<Rightarrow> vm_error + (string \<times> string list)" where
  "increment line behind =
     (case line of
        c # rest \<Rightarrow> Inr (rest, behind)
      | [] \<Rightarrow>
          (case behind of
             [] \<Rightarrow> Inl read_outside_array
           | b # bs \<Rightarrow> Inr (b, bs)))"

text \<open>\<^verbatim>\<open>line += n\<close> followed by a read at the new place.\<close>

fun advance :: "nat \<Rightarrow> string \<Rightarrow> string list \<Rightarrow> vm_error + (string \<times> string list)" where
  "advance n line [] =
     (if n \<le> length line then Inr (drop n line, []) else Inl read_outside_array)"
| "advance n line (b # bs) =
     (if n \<le> length line then Inr (drop n line, b # bs)
      else advance (n - length line - 1) b bs)"

text \<open>The number of bytes from a pointer to the end of the strings behind it.\<close>

definition bytes_left :: "string \<Rightarrow> string list \<Rightarrow> nat" where
  "bytes_left line behind = length line + sum_list (map (\<lambda>b. Suc (length b)) behind)"

lemma advance_bytes_left:
  "advance n line behind = Inr (line', behind') \<Longrightarrow> bytes_left line' behind' \<le> bytes_left line behind"
proof (induction behind arbitrary: n line)
  case Nil
  then show ?case by (auto simp: bytes_left_def split: if_splits)
next
  case (Cons b bs)
  show ?case
  proof (cases "n \<le> length line")
    case True
    with Cons.prems show ?thesis by (auto simp: bytes_left_def)
  next
    case False
    with Cons.prems have "advance (n - length line - 1) b bs = Inr (line', behind')" by simp
    from Cons.IH [OF this] show ?thesis by (simp add: bytes_left_def)
  qed
qed

lemma sscanf_set_consumes:
  "sscanf_set w S line = Some (token, n) \<Longrightarrow> 0 < n \<and> n \<le> length line \<and> n = length token"
  using length_takeWhile_le [of S line]
  by (auto simp: sscanf_set_def Let_def split: if_splits)

lemma sscanf_blank_set_consumes:
  "sscanf_blank_set w S line = Some (token, n) \<Longrightarrow> 0 < n \<and> line \<noteq> []"
  by (auto simp: sscanf_blank_set_def Let_def split: if_splits option.splits)

text \<open>
  The \<^verbatim>\<open>while\<close> loop of the string-list branch. \<open>next_value\<close> and
  \<open>end_value\<close> are offsets into \<open>value\<close>.
\<close>

function ccstrlist_loop :: "string \<Rightarrow> nat \<Rightarrow> buffer \<Rightarrow> nat \<Rightarrow> nat \<Rightarrow> vm_error + (buffer \<times> nat)" where
  "ccstrlist_loop line total_bytes_read val next_value end_value =
     (case sscanf_blank_set 255 set_ccstrlist line of
        None \<Rightarrow> Inr (val, total_bytes_read)
      | Some (token, bytes_read) \<Rightarrow>
          (case store_token val next_value token of
             Inl e \<Rightarrow> Inl e
           | Inr val1 \<Rightarrow>
               (case poke val1 end_value CHR '' '' of
                  Inl e \<Rightarrow> Inl e
                | Inr val2 \<Rightarrow>
                    ccstrlist_loop (drop bytes_read line) (total_bytes_read + bytes_read) val2
                      (next_value + bytes_read) (next_value + bytes_read - 1))))"
  by pat_completeness auto
termination
  by (relation "measure (\<lambda>(line, t, v, n, e). length line)")
     (auto dest: sscanf_blank_set_consumes)

declare ccstrlist_loop.simps [simp del]

subsection \<open>Scanning a value\<close>

definition cannot_be_read :: "string \<Rightarrow> string \<Rightarrow> string" where
  "cannot_be_read ccname type_str =
     ''  Value cannot be read for flag '' @ ccname @ '' of type '' @ type_str"

definition type_not_supported :: "string \<Rightarrow> string" where
  "type_not_supported type_str = ''  Type '' @ type_str @ '' not supported ''"

text \<open>
  The successful exit of a branch of \<^verbatim>\<open>scan_value\<close>: the call of
  \<^verbatim>\<open>add_option_string\<close> and the \<^verbatim>\<open>return\<close>.
\<close>

definition add_and_return :: "'m env \<Rightarrow> TypedMethodOptionMatcher option \<Rightarrow> CompileCommand
    \<Rightarrow> option_value \<Rightarrow> nat \<Rightarrow> string \<Rightarrow> store \<Rightarrow> vm_error + (store \<times> nat \<times> string)" where
  "add_and_return env matcher cc_option v total_bytes_read errorbuf st =
     (case add_option_string env matcher cc_option v st of
        Inl e \<Rightarrow> Inl e
      | Inr st' \<Rightarrow> Inr (st', total_bytes_read, errorbuf))"

text \<open>
  \<^verbatim>\<open>scan_value(type, line, total_bytes_read, matcher, cc_option, errorbuf, buf_size)\<close>.
  The result holds the store, the new \<^verbatim>\<open>total_bytes_read\<close> and the contents of
  \<^verbatim>\<open>errorbuf\<close>. In the string branch the token goes through a buffer that is
  large enough for it (\<^verbatim>\<open>strlen(line) + 1\<close> bytes) and is passed on as it is.
\<close>

definition scan_value :: "'m env \<Rightarrow> OptionType \<Rightarrow> string \<Rightarrow> nat \<Rightarrow> TypedMethodOptionMatcher option
    \<Rightarrow> CompileCommand \<Rightarrow> string \<Rightarrow> nat \<Rightarrow> store \<Rightarrow> vm_error + (store \<times> nat \<times> string)" where
  "scan_value env ty line0 total_bytes_read0 matcher cc_option errorbuf buf_size st =
     (let ccname = command_names env cc_option;
          type_str = optiontype_names env ty;
          skipped = skip_whitespace line0;
          line = drop skipped line0;
          total_bytes_read = total_bytes_read0 + skipped
      in
      if ty = Intx then
        (case sscanf_INTX_FORMAT env line of
           Some (v, bytes_read) \<Rightarrow>
             add_and_return env matcher cc_option (intx_value v) (total_bytes_read + bytes_read) errorbuf st
         | None \<Rightarrow>
             Inr (st, total_bytes_read, jio_snprintf buf_size (cannot_be_read ccname type_str @ '' '')))
      else if ty = Uintx then
        (case sscanf_UINTX_FORMAT env line of
           Some (v, bytes_read) \<Rightarrow>
             add_and_return env matcher cc_option (uintx_value v) (total_bytes_read + bytes_read) errorbuf st
         | None \<Rightarrow> Inr (st, total_bytes_read, jio_snprintf buf_size (cannot_be_read ccname type_str)))
      else if ty = Ccstr then
        (case sscanf_set 255 set_ccstr line of
           Some (v, bytes_read) \<Rightarrow>
             add_and_return env matcher cc_option (ccstr_value v) (total_bytes_read + bytes_read) errorbuf st
         | None \<Rightarrow> Inr (st, total_bytes_read, jio_snprintf buf_size (cannot_be_read ccname type_str)))
      else if ty = Ccstrlist then
        (case sscanf_set 255 set_ccstrlist line of
           Some (token, bytes_read) \<Rightarrow>
             (case store_token (NEW_RESOURCE_ARRAY (length line + 1)) 0 token of
                Inl e \<Rightarrow> Inl e
              | Inr val \<Rightarrow>
                  (case ccstrlist_loop (drop bytes_read line) (total_bytes_read + bytes_read) val
                          (bytes_read + 1) (bytes_read + 1 - 1) of
                     Inl e \<Rightarrow> Inl e
                   | Inr (val', total_bytes_read1) \<Rightarrow>
                       (case c_string val' of
                          Inl e \<Rightarrow> Inl e
                        | Inr s \<Rightarrow>
                            add_and_return env matcher cc_option (ccstr_value s) total_bytes_read1 errorbuf st)))
         | None \<Rightarrow> Inr (st, total_bytes_read, jio_snprintf buf_size (cannot_be_read ccname type_str)))
      else if ty = Bool then
        (if line = [] then
           add_and_return env matcher cc_option (bool_value True) total_bytes_read errorbuf st
         else
           (case sscanf_set 255 set_alpha line of
              Some (v, bytes_read) \<Rightarrow>
                if v = ''true'' then
                  add_and_return env matcher cc_option (bool_value True) (total_bytes_read + bytes_read) errorbuf st
                else if v = ''false'' then
                  add_and_return env matcher cc_option (bool_value False) (total_bytes_read + bytes_read) errorbuf st
                else Inr (st, total_bytes_read, jio_snprintf buf_size (cannot_be_read ccname type_str))
            | None \<Rightarrow> Inr (st, total_bytes_read, jio_snprintf buf_size (cannot_be_read ccname type_str))))
      else if ty = Double then
        (case sscanf_double line of
           Some (b0, b1, bytes_read) \<Rightarrow>
             add_and_return env matcher cc_option
               (double_value (atof env (jio_snprintf 512 (b0 @ ''.'' @ b1))))
               (total_bytes_read + bytes_read) errorbuf st
         | None \<Rightarrow> Inr (st, total_bytes_read, jio_snprintf buf_size (cannot_be_read ccname type_str)))
      else Inr (st, total_bytes_read, jio_snprintf buf_size (type_not_supported type_str)))"

text \<open>The three messages of \<^verbatim>\<open>scan_flag_and_value\<close>.\<close>

definition flag_name_unknown :: "string \<Rightarrow> string" where
  "flag_name_unknown flag = ''  Flag name unknown: '' @ flag"

definition flag_type_mismatch :: "string \<Rightarrow> string \<Rightarrow> string \<Rightarrow> string" where
  "flag_type_mismatch flag optiontype_name type_name =
     ''  Flag '' @ flag @ '' with type '' @ optiontype_name @ '' doesn'' @ [CHR 0x27]
     @ ''t match supplied type '' @ type_name"

definition flag_name_not_alphanumeric :: "string \<Rightarrow> string" where
  "flag_name_not_alphanumeric type_str =
     ''  Flag name for type '' @ type_str @ '' should be alphanumeric ''"

text \<open>
  \<^verbatim>\<open>scan_flag_and_value\<close>. After the flag name the pointer is moved one byte on
  (\<^verbatim>\<open>line++\<close>) whatever that byte is; when the name ends the line, the pointer
  is then behind the terminator, and \<^verbatim>\<open>scan_value\<close> reads the value from the
  bytes that lie there. \<^verbatim>\<open>total_bytes_read\<close> counts the byte stepped over.
\<close>

definition scan_flag_and_value :: "'m env \<Rightarrow> OptionType \<Rightarrow> string \<Rightarrow> string list
    \<Rightarrow> TypedMethodOptionMatcher option
    \<Rightarrow> string \<Rightarrow> nat \<Rightarrow> store \<Rightarrow> vm_error + (store \<times> nat \<times> string)" where
  "scan_flag_and_value env ty line behind matcher errorbuf buf_size st =
     (case sscanf_blank_set 255 set_alnum line of
        Some (flag, bytes_read) \<Rightarrow>
          (let line1 = drop bytes_read line;
               total_bytes_read = bytes_read + 1;
               cc_option = fst (parse_command_name env flag)
           in
           if cc_option = Unknown then
             Inr (st, total_bytes_read, jio_snprintf buf_size (flag_name_unknown flag))
           else
             (let optiontype = command2types env cc_option in
              if command2types env cc_option \<noteq> ty then
                Inr (st, total_bytes_read,
                     jio_snprintf buf_size
                       (flag_type_mismatch flag (optiontype_names env optiontype)
                          (optiontype_names env ty)))
              else
                (case increment line1 behind of
                   Inl e \<Rightarrow> Inl e
                 | Inr (line2, behind2) \<Rightarrow>
                     scan_value env ty line2 total_bytes_read matcher cc_option errorbuf buf_size st)))
      | None \<Rightarrow>
          Inr (st, 0,
               jio_snprintf buf_size (flag_name_not_alphanumeric (optiontype_names env ty))))"

subsection \<open>Diagnostics\<close>

definition print_tip :: "tty_out list" where
  "print_tip =
     [Tty_cr,
      Tty_print_cr (''Usage: '' @ [CHR 0x27] @ ''-XX:CompileCommand=command,'' @ [CHR 0x22]
                @ ''package/Class.method()'' @ [CHR 0x22, CHR 0x27]),
      Tty_print_cr (''Use:   '' @ [CHR 0x27] @ ''-XX:CompileCommand=help'' @ [CHR 0x27]
                @ '' for more information.''),
      Tty_cr]"

text \<open>The first line of each of the two diagnostics for a line that is not accepted.\<close>

definition parse_error_header :: tty_out where
  "parse_error_header = Tty_print_cr ''CompileCommand: An error occurred during parsing''"

definition unrecognized_header :: tty_out where
  "unrecognized_header = Tty_print_cr ''CompileCommand: unrecognized command''"

definition print_parse_error :: "string \<Rightarrow> string \<Rightarrow> store \<Rightarrow> store" where
  "print_parse_error error_msg original_line st =
     tty_print
       ([parse_error_header,
         Tty_print_cr (''Line: '' @ original_line),
         Tty_print_cr (''Error: '' @ error_msg)] @ print_tip) st"

text \<open>The three lines printed for an unrecognized command, in both places of \<^verbatim>\<open>parse_from_line\<close>.\<close>

definition unrecognized_command :: "string \<Rightarrow> store \<Rightarrow> store" where
  "unrecognized_command original st =
     tty_print
       ([unrecognized_header,
         Tty_print_cr (''  '' @ [CHR 0x22] @ original @ [CHR 0x22])] @ print_tip) st"

text \<open>\<^verbatim>\<open>TypedMethodOptionMatcher::print\<close>\<close>

definition print_matcher :: "'m env \<Rightarrow> TypedMethodOptionMatcher \<Rightarrow> vm_error + tty_out list" where
  "print_matcher env m =
     (let command_name = command_names env (m_option m) in
      if m_type m = Intx \<or> m_type m = Uintx \<or> m_type m = Bool \<or> m_type m = Double
         \<or> m_type m = Ccstr
      then Inr [Tty_print_base (MethodMatcher.truncate m),
                Tty_option_value (m_type m) command_name (m_u m)]
      else Inl ShouldNotReachHere)"

text \<open>
  The echo of a directive that was just added: \<^verbatim>\<open>tty->print("CompileCommand: %s ", ...)\<close>,
  the matcher's \<^verbatim>\<open>print()\<close> and, where the code has it, \<^verbatim>\<open>tty->cr()\<close>. The
  matcher that was handed to \<^verbatim>\<open>add_option_string\<close> is the head of the list.
\<close>

definition echo :: "'m env \<Rightarrow> string \<Rightarrow> bool \<Rightarrow> store \<Rightarrow> vm_error + store" where
  "echo env prefix with_cr st =
     (case option_list st of
        [] \<Rightarrow> Inl null_pointer_dereference
      | m # next \<Rightarrow>
          (case print_matcher env m of
             Inl e \<Rightarrow> Inl e
           | Inr out \<Rightarrow> Inr (tty_print (Tty_print prefix # out @ (if with_cr then [Tty_cr] else [])) st)))"

definition echo_prefix :: "string \<Rightarrow> string" where
  "echo_prefix command_name = ''CompileCommand: '' @ command_name @ '' ''"

definition echo_unless_quiet :: "'m env \<Rightarrow> CompileCommand \<Rightarrow> bool \<Rightarrow> store \<Rightarrow> vm_error + store" where
  "echo_unless_quiet env command with_cr st =
     (if \<not> quiet st
      then echo env (echo_prefix (command_names env command)) with_cr st
      else Inr st)"

subsection \<open>Parsing a line\<close>

text \<open>A matcher that holds a pattern and is otherwise as constructed.\<close>

definition with_pattern :: "MethodMatcher \<Rightarrow> TypedMethodOptionMatcher" where
  "with_pattern p =
     TypedMethodOptionMatcher_new
       \<lparr>class_mode := class_mode p, class_name := class_name p,
        method_mode := method_mode p, method_name := method_name p,
        signature := signature p\<rparr>"

text \<open>
  \<^verbatim>\<open>TypedMethodOptionMatcher::parse_method_pattern(line, error_msg)\<close>: the error
  message (and NULL as the result) or the new matcher, and the line as the
  external parser leaves it.
\<close>

definition parse_method_pattern :: "'m env \<Rightarrow> string \<Rightarrow> (string + TypedMethodOptionMatcher) \<times> string" where
  "parse_method_pattern env line =
     (case MethodMatcher_parse_method_pattern env line of
        (Inl error_msg, line') \<Rightarrow> (Inl error_msg, line')
      | (Inr p, line') \<Rightarrow> (Inr (with_pattern p), line'))"

text \<open>
  One round of the \<^verbatim>\<open>while\<close> loop over the clauses of an \<^verbatim>\<open>option\<close> line,
  entered with the token \<open>option_type\<close> read and the pointer behind it. The
  result is the store and either nothing, when \<^verbatim>\<open>parse_from_line\<close> returns from
  inside the loop, or the pointer at the end of the round: moved on by
  \<^verbatim>\<open>line += bytes_read\<close> in a typed clause, and then over the blanks.
\<close>

definition option_clause :: "'m env \<Rightarrow> CompileCommand \<Rightarrow> TypedMethodOptionMatcher \<Rightarrow> string \<Rightarrow> string
    \<Rightarrow> string \<Rightarrow> string list \<Rightarrow> store \<Rightarrow> vm_error + (store \<times> (string \<times> string list) option)" where
  "option_clause env command archetype original option_type line behind st =
     (let typed_matcher = clone archetype;
          ty = parse_option_type option_type
      in
      if ty \<noteq> Unknown_type then
        (case scan_flag_and_value env ty line behind (Some typed_matcher) [] 1024 st of
           Inl e \<Rightarrow> Inl e
         | Inr (st1, bytes_read, errorbuf) \<Rightarrow>
             if errorbuf \<noteq> [] then Inr (print_parse_error errorbuf original st1, None)
             else
               (case echo_unless_quiet env command False st1 of
                  Inl e \<Rightarrow> Inl e
                | Inr st2 \<Rightarrow>
                    (case advance bytes_read line behind of
                       Inl e \<Rightarrow> Inl e
                     | Inr (line1, behind1) \<Rightarrow>
                         Inr (st2, Some (drop (skip_whitespace line1) line1, behind1)))))
      else
        (let cc_option = fst (parse_command_name env option_type) in
         if cc_option = Unknown then Inr (unrecognized_command original st, None)
         else
           (case add_option_string env (Some typed_matcher) cc_option (bool_value True) st of
              Inl e \<Rightarrow> Inl e
            | Inr st1 \<Rightarrow>
                (case echo_unless_quiet env command False st1 of
                   Inl e \<Rightarrow> Inl e
                 | Inr st2 \<Rightarrow> Inr (st2, Some (drop (skip_whitespace line) line, behind))))))"

lemma option_clause_bytes_left:
  assumes "option_clause env command archetype original option_type line behind st
             = Inr (st', Some (line', behind'))"
  shows "bytes_left line' behind' \<le> bytes_left line behind"
proof (cases "parse_option_type option_type \<noteq> Unknown_type")
  case True
  with assms obtain n line1 where a: "advance n line behind = Inr (line1, behind')"
    and l: "line' = drop (skip_whitespace line1) line1"
    by (auto simp: option_clause_def Let_def split: sum.splits if_splits prod.splits)
  from advance_bytes_left [OF a] l show ?thesis by (simp add: bytes_left_def)
next
  case False
  with assms have "line' = drop (skip_whitespace line) line" and "behind' = behind"
    by (auto simp: option_clause_def Let_def split: sum.splits if_splits)
  then show ?thesis by (simp add: bytes_left_def)
qed

lemma option_clause_decreases:
  assumes "sscanf_set w S line = Some (option_type, bytes_read)"
    and "option_clause env command archetype original option_type (drop bytes_read line) behind st
           = Inr (st', Some (line', behind'))"
  shows "bytes_left line' behind' < bytes_left line behind"
proof -
  from sscanf_set_consumes [OF assms(1)]
  have "0 < bytes_read" and "bytes_read \<le> length line" by blast+
  moreover have "length (drop bytes_read line) = length line - bytes_read" by simp
  ultimately have "length (drop bytes_read line) < length line" by linarith
  then have "bytes_left (drop bytes_read line) behind < bytes_left line behind"
    unfolding bytes_left_def by linarith
  with option_clause_bytes_left [OF assms(2)] show ?thesis by simp
qed

text \<open>The \<^verbatim>\<open>while\<close> loop over the clauses of an \<^verbatim>\<open>option\<close> line.\<close>

function option_loop :: "'m env \<Rightarrow> CompileCommand \<Rightarrow> TypedMethodOptionMatcher \<Rightarrow> string \<Rightarrow> string
    \<Rightarrow> string list \<Rightarrow> store \<Rightarrow> vm_error + store" where
  "option_loop env command archetype original line behind st =
     (case sscanf_set 255 set_alnum line of
        None \<Rightarrow> Inr st
      | Some (option_type, bytes_read) \<Rightarrow>
          (case option_clause env command archetype original option_type
                  (drop bytes_read line) behind st of
             Inl e \<Rightarrow> Inl e
           | Inr (st', None) \<Rightarrow> Inr st'
           | Inr (st', Some (line', behind')) \<Rightarrow>
               option_loop env command archetype original line' behind' st'))"
  by pat_completeness auto
termination
  by (relation "measure (\<lambda>(env, command, archetype, original, line, behind, st). bytes_left line behind)")
     (auto intro: option_clause_decreases)

declare option_loop.simps [simp del]

text \<open>
  \<^verbatim>\<open>CompilerOracle::parse_from_line\<close>. The name of an \<^verbatim>\<open>option\<close> line and of a
  line of the Standard variant is followed by \<^verbatim>\<open>line++\<close>, whatever the next byte
  is: when the name ends the line, the pattern is parsed from the bytes behind
  the terminator.
\<close>

definition parse_from_line :: "'m env \<Rightarrow> string \<Rightarrow> string list \<Rightarrow> store \<Rightarrow> vm_error + store" where
  "parse_from_line env line behind st =
     (if line = [] then Inr st
      else if hd line = CHR ''#'' then Inr st
      else
        (let original = line;
             (command, bytes_read) = parse_command_name env line;
             line1 = drop bytes_read line
         in
         if command = Unknown then Inr (unrecognized_command original st)
         else if command = Quiet then Inr (st\<lparr>quiet := True\<rparr>)
         else if command = Help then Inr (tty_print [Tty_usage] st)
         else if command = Option then
           (case increment line1 behind of
              Inl e \<Rightarrow> Inl e
            | Inr (line2, behind2) \<Rightarrow>
                (case parse_method_pattern env line2 of
                   (Inl error_msg, line3) \<Rightarrow> Inr (print_parse_error error_msg original st)
                 | (Inr archetype, line3) \<Rightarrow>
                     option_loop env command archetype original
                       (drop (skip_whitespace line3) line3) behind2 st))
         else
           (let variant = command2variant env command in
            if variant = Basic then
              (case parse_method_pattern env line1 of
                 (Inl error_msg, line2) \<Rightarrow> Inr (print_parse_error error_msg original st)
               | (Inr matcher, line2) \<Rightarrow>
                   (case add_option_string env (Some matcher) command (bool_value True) st of
                      Inl e \<Rightarrow> Inl e
                    | Inr st1 \<Rightarrow> echo_unless_quiet env command True st1))
            else if variant = Standard then
              (let ty = command2types env command in
               (case increment line1 behind of
                  Inl e \<Rightarrow> Inl e
                | Inr (line2, behind2) \<Rightarrow>
                    (case parse_method_pattern env line2 of
                       (res, line3) \<Rightarrow>
                         (case scan_value env ty line3 0
                                 (case res of Inl error_msg \<Rightarrow> None | Inr matcher \<Rightarrow> Some matcher)
                                 command [] 1024 st of
                            Inl e \<Rightarrow> Inl e
                          | Inr (st1, bytes_read, errorbuf) \<Rightarrow>
                              if errorbuf \<noteq> [] then Inr (print_parse_error errorbuf original st1)
                              else echo_unless_quiet env command True st1))))
            else Inl (assert_failed ''sanity''))))"

subsection \<open>The legacy list: \<^verbatim>\<open>CompilerOracle::parse_compile_only\<close>\<close>

text \<open>\<^verbatim>\<open>strstr(line, "::") != NULL\<close>\<close>

fun have_colon :: "string \<Rightarrow> bool" where
  "have_colon (a # b # line) = ((a = CHR '':'' \<and> b = CHR '':'') \<or> have_colon (b # line))"
| "have_colon line = False"

text \<open>\<^verbatim>\<open>isspace\<close> in the C locale: space, and the controls from tab to carriage return.\<close>

definition isspace :: "char \<Rightarrow> bool" where
  "isspace c = (c = CHR '' '' \<or> in_range (CHR 0x09) (CHR 0x0D) c)"

text \<open>
  The \<^verbatim>\<open>for\<close> loop that copies a name into \<^verbatim>\<open>name[1024]\<close>: the characters
  copied from index \<open>i\<close> on, and the line where the loop stops.
\<close>

fun copy_name :: "char \<Rightarrow> nat \<Rightarrow> string \<Rightarrow> string \<times> string" where
  "copy_name method_sep i [] = ([], [])"
| "copy_name method_sep i (c # line) =
     (if i < 1024 \<and> c \<noteq> method_sep \<and> c \<noteq> CHR '','' \<and> \<not> isspace c then
        (let (name, rest) = copy_name method_sep (Suc i) line
         in ((if c = CHR ''.'' then CHR ''/'' else c) # name, rest))
      else ([], c # line))"

text \<open>
  Modelled from the spec: \<^verbatim>\<open>MethodMatcher::init(class_name, class_mode, method_name,
  method_mode, signature)\<close> is declared in methodMatcher.hpp; it fills the
  pattern ("a pattern's name components are immutable once built").
\<close>

definition MethodMatcher_init :: "string option \<Rightarrow> Mode \<Rightarrow> string option \<Rightarrow> Mode \<Rightarrow> string option
    \<Rightarrow> TypedMethodOptionMatcher \<Rightarrow> TypedMethodOptionMatcher" where
  "MethodMatcher_init c_name c_match m_name m_match sig m =
     m\<lparr>class_mode := c_match, class_name := c_name,
       method_mode := m_match, method_name := m_name, signature := sig\<rparr>"

lemma copy_name_rest:
  "copy_name method_sep i line = (name, rest) \<Longrightarrow> length rest \<le> length line"
proof (induction line arbitrary: i name rest)
  case Nil
  then show ?case by simp
next
  case (Cons c line)
  show ?case
  proof (cases "i < 1024 \<and> c \<noteq> method_sep \<and> c \<noteq> CHR '','' \<and> \<not> isspace c")
    case True
    obtain n r where nr: "copy_name method_sep (Suc i) line = (n, r)"
      by force
    with True Cons.prems have "rest = r"
      by simp
    with Cons.IH [OF nr] show ?thesis
      by simp
  next
    case False
    with Cons.prems show ?thesis
      by auto
  qed
qed

lemma copy_name_shortens:
  assumes "line \<noteq> []" and "(name, line1) = copy_name method_sep i line"
  shows "length (if line1 = [] then line1 else tl line1) < length line"
proof -
  have "length line1 \<le> length line"
    using assms(2) copy_name_rest [of method_sep i line name line1] by simp
  with assms(1) show ?thesis
    by (cases line1) auto
qed

text \<open>
  The body of the \<^verbatim>\<open>while\<close> loop, entered with \<^verbatim>\<open>*line != '\0'\<close>.
  \<open>className\<close> and \<open>methodName\<close> are \<open>None\<close> for NULL; \<^verbatim>\<open>c_match\<close> and
  \<^verbatim>\<open>m_match\<close> start every round as \<^verbatim>\<open>Exact\<close>. The result holds the two
  names, the line and the store with which the next round starts.
\<close>

definition compile_only_round :: "'m env \<Rightarrow> char \<Rightarrow> string option \<Rightarrow> string option \<Rightarrow> string \<Rightarrow> store
    \<Rightarrow> vm_error + (string option \<times> string option \<times> string \<times> store)" where
  "compile_only_round env method_sep className methodName line st =
     (let (name, line1) = copy_name method_sep 0 line;
          i = length name;
          className1 = (if i > 0 \<and> className = None then Some name else className);
          methodName1 = (if i > 0 \<and> className \<noteq> None then Some name else methodName);
          at_sep = (line1 \<noteq> [] \<and> hd line1 = method_sep)
      in
      if \<not> at_sep \<and> className1 = None then Inl ShouldNotReachHere
      else
        (let className2 = (if at_sep \<and> className1 = None then Some [] else className1);
             c_match = (if at_sep then (if className1 = None then Any else Exact)
                        else (if className1 = Some [] then Any else Exact));
             line2 = (if line1 = [] then line1 else tl line1)
         in
         if line1 = [] \<or> hd line1 = CHR '','' \<or> line1 = ''.'' then
           (let m_match = (if methodName1 = None \<and> \<not> at_sep then Any else Exact);
                methodName2 = (if methodName1 = None then Some [] else methodName1);
                tom = MethodMatcher_init className2 c_match methodName2 m_match None
                        TypedMethodOptionMatcher_new
            in
            (case add_option_string env (Some tom) CompileOnly (bool_value True) st of
               Inl e \<Rightarrow> Inl e
             | Inr st1 \<Rightarrow>
                 (case (if PrintVMOptions env
                        then echo env ''CompileOnly: compileonly '' False st1
                        else Inr st1) of
                    Inl e \<Rightarrow> Inl e
                  | Inr st2 \<Rightarrow> Inr (None, None, line2, st2))))
         else Inr (className2, methodName1, line2, st)))"

lemma compile_only_round_shortens:
  assumes "compile_only_round env method_sep className methodName line st
             = Inr (className', methodName', line', st')"
      and "line \<noteq> []"
  shows "length line' < length line"
proof -
  obtain name line1 where c: "(name, line1) = copy_name method_sep 0 line"
    by (metis surj_pair)
  from assms(1) have "line' = (if line1 = [] then line1 else tl line1)"
    unfolding compile_only_round_def c [symmetric]
    by (simp add: Let_def split: if_splits sum.splits)
  with copy_name_shortens [OF assms(2) c] show ?thesis
    by simp
qed

function compile_only_loop :: "'m env \<Rightarrow> char \<Rightarrow> string option \<Rightarrow> string option \<Rightarrow> string \<Rightarrow> store
    \<Rightarrow> vm_error + store" where
  "compile_only_loop env method_sep className methodName line st =
     (if line = [] then Inr st
      else
        (case compile_only_round env method_sep className methodName line st of
           Inl e \<Rightarrow> Inl e
         | Inr (className', methodName', line', st') \<Rightarrow>
             compile_only_loop env method_sep className' methodName' line' st'))"
  by pat_completeness auto
termination
  by (relation "measure (\<lambda>(env, method_sep, className, methodName, line, st). length line)")
     (auto dest: compile_only_round_shortens)

declare compile_only_loop.simps [simp del]

text \<open>\<^verbatim>\<open>char method_sep = have_colon ? ':' : '.'\<close>, fixed once for the whole input.\<close>

definition method_separator :: "string \<Rightarrow> char" where
  "method_separator line = (if have_colon line then CHR '':'' else CHR ''.'')"

definition parse_compile_only :: "'m env \<Rightarrow> string \<Rightarrow> store \<Rightarrow> vm_error + store" where
  "parse_compile_only env line st =
     (let method_sep = method_separator line;
          st0 = (if Verbose env then tty_print [Tty_print_cr line] st else st)
      in compile_only_loop env method_sep None None line st0)"

subsection \<open>An environment for the closed examples\<close>

text \<open>
  Modelled from the spec: the rows of the registry that the spec lists as
  concrete line forms (\<^verbatim>\<open>exclude\<close>, \<^verbatim>\<open>inline\<close>, \<^verbatim>\<open>dontinline\<close>,
  \<^verbatim>\<open>compileonly\<close>, \<^verbatim>\<open>log\<close>, \<^verbatim>\<open>print\<close>, \<^verbatim>\<open>break\<close> with a pattern and a
  boolean value; \<^verbatim>\<open>quiet\<close> and \<^verbatim>\<open>help\<close> bare; \<^verbatim>\<open>option\<close>), and two rows with
  a value of their own: \<open>Custom 0\<close>, a string list, and \<open>Custom 1\<close>, an integer.
\<close>

definition example_commands :: "CompileCommand list" where
  "example_commands =
     [Help, Quiet, Log, Print, Inline, DontInline, Exclude, Break, CompileOnly, Option,
      Custom 0, Custom 1]"

fun example_command_names :: "CompileCommand \<Rightarrow> string" where
  "example_command_names Help = ''help''"
| "example_command_names Quiet = ''quiet''"
| "example_command_names Log = ''log''"
| "example_command_names Print = ''print''"
| "example_command_names Inline = ''inline''"
| "example_command_names DontInline = ''dontinline''"
| "example_command_names Exclude = ''exclude''"
| "example_command_names Break = ''break''"
| "example_command_names CompileOnly = ''compileonly''"
| "example_command_names Option = ''option''"
| "example_command_names (Custom n) = (if n = 0 then ''ControlIntrinsic'' else ''MemLimit'')"
| "example_command_names Unknown = ''unknown''"

fun example_command2types :: "CompileCommand \<Rightarrow> OptionType" where
  "example_command2types Help = Unknown_type"
| "example_command2types Quiet = Unknown_type"
| "example_command2types Option = Unknown_type"
| "example_command2types Unknown = Unknown_type"
| "example_command2types (Custom n) = (if n = 0 then Ccstrlist else Intx)"
| "example_command2types c = Bool"

fun example_command2variant :: "CompileCommand \<Rightarrow> CompileCommandVariant" where
  "example_command2variant Help = Trivial"
| "example_command2variant Quiet = Trivial"
| "example_command2variant Option = Legacy"
| "example_command2variant Unknown = Legacy"
| "example_command2variant (Custom n) = Standard"
| "example_command2variant c = Basic"

fun example_optiontype_names :: "OptionType \<Rightarrow> string" where
  "example_optiontype_names Intx = ''intx''"
| "example_optiontype_names Uintx = ''uintx''"
| "example_optiontype_names Bool = ''bool''"
| "example_optiontype_names Ccstr = ''ccstr''"
| "example_optiontype_names Ccstrlist = ''ccstrlist''"
| "example_optiontype_names Double = ''double''"
| "example_optiontype_names Unknown_type = ''unknown''"

text \<open>
  A small pattern reader that stands for the external one in the examples:
  after leading blanks and commas it reads \<^verbatim>\<open><owner>.<member>\<close>, both names
  non-empty and free of blanks, commas and dots, and leaves the line behind the
  member. The theorems hold for every pattern reader and every matcher.
\<close>

definition pattern_char :: "char \<Rightarrow> bool" where
  "pattern_char c = (c \<noteq> CHR '' '' \<and> c \<noteq> CHR '','' \<and> c \<noteq> CHR ''.'')"

definition example_parse_method_pattern :: "string \<Rightarrow> (string + MethodMatcher) \<times> string" where
  "example_parse_method_pattern line =
     (let line1 = dropWhile (\<lambda>c. c = CHR '' '' \<or> c = CHR '','') line;
          owner = takeWhile pattern_char line1;
          line2 = dropWhile pattern_char line1;
          member = takeWhile pattern_char (tl line2)
      in if owner \<noteq> [] \<and> line2 \<noteq> [] \<and> hd line2 = CHR ''.'' \<and> member \<noteq> []
         then (Inr \<lparr>class_mode = Exact, class_name = Some owner,
                    method_mode = Exact, method_name = Some member, signature = None\<rparr>,
               dropWhile pattern_char (tl line2))
         else (Inl ''Could not parse method pattern'', line))"

text \<open>Targets of the examples are pairs of an owner and a member name.\<close>

definition example_matches :: "MethodMatcher \<Rightarrow> string \<times> string \<Rightarrow> bool" where
  "example_matches p target =
     ((class_mode p = Any \<or> (class_mode p = Exact \<and> class_name p = Some (fst target)))
      \<and> (method_mode p = Any \<or> (method_mode p = Exact \<and> method_name p = Some (snd target))))"

fun decimal :: "nat \<Rightarrow> string \<Rightarrow> nat" where
  "decimal acc [] = acc"
| "decimal acc (c # cs) = decimal (10 * acc + (of_char c - 48)) cs"

definition example_sscanf_number :: "string \<Rightarrow> (64 word \<times> nat) option" where
  "example_sscanf_number line =
     (case sscanf_set 18 set_digit line of
        None \<Rightarrow> None
      | Some (digits, n) \<Rightarrow> Some (of_nat (decimal 0 digits), n))"

definition example_env :: "(string \<times> string) env" where
  "example_env =
     \<lparr>commands = example_commands,
      command_names = example_command_names,
      command2types = example_command2types,
      command2variant = example_command2variant,
      optiontype_names = example_optiontype_names,
      MethodMatcher_parse_method_pattern = example_parse_method_pattern,
      matches = example_matches,
      sscanf_INTX_FORMAT = example_sscanf_number,
      sscanf_UINTX_FORMAT = example_sscanf_number,
      atof = (\<lambda>s. undefined),
      LogCompilation = True,
      Verbose = False,
      PrintVMOptions = False\<rparr>"

lemma example_env_simps [simp]:
  "commands example_env = example_commands"
  "command_names example_env = example_command_names"
  "command2types example_env = example_command2types"
  "command2variant example_env = example_command2variant"
  "optiontype_names example_env = example_optiontype_names"
  "MethodMatcher_parse_method_pattern example_env = example_parse_method_pattern"
  "matches example_env = example_matches"
  "sscanf_INTX_FORMAT example_env = example_sscanf_number"
  "sscanf_UINTX_FORMAT example_env = example_sscanf_number"
  "LogCompilation example_env = True"
  "Verbose example_env = False"
  "PrintVMOptions example_env = False"
  by (simp_all add: example_env_def)

text \<open>The pattern \<^verbatim>\<open>Foo.bar\<close> and a matcher that holds it.\<close>

definition Foo_bar :: TypedMethodOptionMatcher where
  "Foo_bar =
     \<lparr>class_mode = Exact, class_name = Some ''Foo'', method_mode = Exact,
      method_name = Some ''bar'', signature = None,
      m_option = Unknown, m_type = Unknown_type, m_u = None\<rparr>"

section \<open>Notions used in the statements\<close>

subsection \<open>Runs of the oracle\<close>

text \<open>
  One step of loading: a call of \<^verbatim>\<open>add_option_string\<close>, of
  \<^verbatim>\<open>parse_from_line\<close> or of \<^verbatim>\<open>parse_compile_only\<close> that returns. The stores that
  the code can build are those reached from the initial one by such steps
  (\<^verbatim>\<open>compilerOracle_init\<close> feeds the lines of its sources one by one).
\<close>

inductive step :: "'m env \<Rightarrow> store \<Rightarrow> store \<Rightarrow> bool" for env :: "'m env" where
  step_add: "add_option_string env matcher cc v st = Inr st' \<Longrightarrow> step env st st'"
| step_line: "parse_from_line env line behind st = Inr st' \<Longrightarrow> step env st st'"
| step_compile_only: "parse_compile_only env line st = Inr st' \<Longrightarrow> step env st st'"

inductive reachable :: "'m env \<Rightarrow> store \<Rightarrow> bool" for env :: "'m env" where
  reachable_initial: "reachable env initial_store"
| reachable_step: "reachable env st \<Longrightarrow> step env st st' \<Longrightarrow> reachable env st'"

text \<open>The directives that set \<^verbatim>\<open>any_set\<close>: all but the inlining hints and \<^verbatim>\<open>log\<close>.\<close>

definition consequential :: "CompileCommand \<Rightarrow> bool" where
  "consequential cc = (cc \<noteq> DontInline \<and> cc \<noteq> Inline \<and> cc \<noteq> Log)"

text \<open>
  A record as \<^verbatim>\<open>add_option_string\<close> leaves it: its type is the one under which
  values of its command are stored, and the union holds a value of that type.
\<close>

definition well_typed :: "'m env \<Rightarrow> TypedMethodOptionMatcher \<Rightarrow> bool" where
  "well_typed env r =
     (m_type r = stored_type (command2types env (m_option r))
      \<and> (\<exists>v. m_u r = Some v \<and> type_of_value v = m_type r))"

text \<open>A piece of console output that reports a line as not accepted.\<close>

definition rejected :: "tty_out list \<Rightarrow> bool" where
  "rejected out =
     (parse_error_header \<in> set out \<or> unrecognized_header \<in> set out)"

text \<open>
  \<open>extends env st rs out st'\<close>: the store \<open>st'\<close> is \<open>st\<close> with the records \<open>rs\<close>
  put in front, \<open>out\<close> printed, and \<^verbatim>\<open>any_set\<close> raised if one of \<open>rs\<close> is
  consequential; the quiet flag is the same.
\<close>

definition extends :: "'m env \<Rightarrow> store \<Rightarrow> TypedMethodOptionMatcher list \<Rightarrow> tty_out list \<Rightarrow> store \<Rightarrow> bool" where
  "extends env st rs out st' =
     (option_list st' = rs @ option_list st
      \<and> list_all (well_typed env) rs
      \<and> any_set st' = (any_set st \<or> (\<exists>r\<in>set rs. consequential (m_option r)))
      \<and> tty st' = tty st @ out
      \<and> quiet st' = quiet st)"

text \<open>
  What a value scan leaves behind: with an empty \<^verbatim>\<open>errorbuf\<close> one record was
  added, with a message in it the store is untouched.
\<close>

definition scan_outcome :: "'m env \<Rightarrow> store \<Rightarrow> store \<Rightarrow> string \<Rightarrow> bool" where
  "scan_outcome env st st' errorbuf =
     (if errorbuf = [] then (\<exists>r out. extends env st [r] out st' \<and> \<not> rejected out) else st' = st)"

subsection \<open>The directive that a query finds\<close>

text \<open>
  The first record from the head of the list with the kind \<open>k\<close> whose pattern
  accepts the target, and whether that record carries the boolean value true.
\<close>

definition first_match :: "'m env \<Rightarrow> store \<Rightarrow> 'm \<Rightarrow> CompileCommand \<Rightarrow> TypedMethodOptionMatcher option" where
  "first_match env st method k =
     find (\<lambda>r. m_option r = k \<and> matches env (MethodMatcher.truncate r) method) (option_list st)"

definition applies :: "'m env \<Rightarrow> store \<Rightarrow> 'm \<Rightarrow> CompileCommand \<Rightarrow> bool" where
  "applies env st method k =
     (case first_match env st method k of
        Some r \<Rightarrow> m_u r = Some (bool_value True)
      | None \<Rightarrow> False)"

subsection \<open>Stores of the examples\<close>

definition Foo_any :: TypedMethodOptionMatcher where
  "Foo_any = Foo_bar\<lparr>method_mode := Any, method_name := Some []\<rparr>"

definition Foo_bar_as :: "CompileCommand \<Rightarrow> option_value \<Rightarrow> TypedMethodOptionMatcher" where
  "Foo_bar_as cc v = set_value v (init cc (type_of_value v) Foo_bar)"

definition quiet_store :: store where
  "quiet_store = initial_store\<lparr>quiet := True\<rparr>"

text \<open>After \<^verbatim>\<open>option Foo.bar bool exclude false\<close> and after \<^verbatim>\<open>option Foo.bar bool log false\<close>.\<close>

definition exclude_false_store :: store where
  "exclude_false_store =
     quiet_store\<lparr>option_list := [Foo_bar_as Exclude (bool_value False)], any_set := True\<rparr>"

definition log_false_store :: store where
  "log_false_store = quiet_store\<lparr>option_list := [Foo_bar_as Log (bool_value False)]\<rparr>"

text \<open>After \<^verbatim>\<open>inline,Foo.bar\<close>, and after \<^verbatim>\<open>exclude,Foo.bar\<close> on top of it.\<close>

definition inline_store :: store where
  "inline_store = quiet_store\<lparr>option_list := [Foo_bar_as Inline (bool_value True)]\<rparr>"

definition inline_exclude_store :: store where
  "inline_exclude_store =
     quiet_store\<lparr>option_list := [Foo_bar_as Exclude (bool_value True),
                                 Foo_bar_as Inline (bool_value True)],
                 any_set := True\<rparr>"

text \<open>After \<^verbatim>\<open>option Foo.bar print\<close>.\<close>

definition print_store :: store where
  "print_store = quiet_store\<lparr>option_list := [Foo_bar_as Print (bool_value True)], any_set := True\<rparr>"

text \<open>After \<^verbatim>\<open>option Foo.bar ccstrlist ControlIntrinsic a b\<close>.\<close>

definition string_list_store :: store where
  "string_list_store =
     quiet_store\<lparr>option_list := [Foo_bar_as (Custom 0) (ccstr_value ''a b'')], any_set := True\<rparr>"

text \<open>After the legacy list \<^verbatim>\<open>Foo.bar\<close>.\<close>

definition Foo_bar_only_store :: store where
  "Foo_bar_only_store =
     quiet_store\<lparr>option_list := [Foo_bar_as CompileOnly (bool_value True)], any_set := True\<rparr>"

subsection \<open>The translation of the legacy list\<close>

text \<open>What the copy loop of \<^verbatim>\<open>parse_compile_only\<close> does to a character of a name.\<close>

definition dot_to_slash :: "char \<Rightarrow> char" where
  "dot_to_slash c = (if c = CHR ''.'' then CHR ''/'' else c)"

section \<open>Auxiliary facts\<close>

lemma match_eq_find:
  "match env l method opt ty
     = find (\<lambda>r. m_option r = opt \<and> matches env (MethodMatcher.truncate r) method) l"
  by (induction l) auto

lemma has_command_list_iff:
  "has_command_list l command = (\<exists>r\<in>set l. m_option r = command)"
  by (induction l) auto

lemma tty_print_simps [simp]:
  "option_list (tty_print out st) = option_list st"
  "any_set (tty_print out st) = any_set st"
  "quiet (tty_print out st) = quiet st"
  "tty (tty_print out st) = tty st @ out"
  by (simp_all add: tty_print_def)

lemma extends_refl: "extends env st [] [] st"
  by (simp add: extends_def)

lemma extends_tty_print: "extends env st [] out (tty_print out st)"
  by (simp add: extends_def)

lemma extends_trans:
  "extends env st rs1 out1 st1 \<Longrightarrow> extends env st1 rs2 out2 st2 \<Longrightarrow> extends env st (rs2 @ rs1) (out1 @ out2) st2"
  by (auto simp: extends_def)

lemma rejected_append: "rejected (a @ b) = (rejected a \<or> rejected b)"
  by (auto simp: rejected_def)

lemma not_rejected_warning: "\<not> rejected LogCompilation_warning"
  by (simp add: rejected_def LogCompilation_warning_def parse_error_header_def
        unrecognized_header_def)

lemma add_option_string_extends:
  assumes "add_option_string env matcher cc v st = Inr st'"
  shows "\<exists>m out. matcher = Some m
           \<and> stored_type (command2types env cc) = type_of_value v
           \<and> extends env st [set_value v (init cc (type_of_value v) m)] out st'
           \<and> \<not> rejected out"
proof -
  from assms obtain m where m: "matcher = Some m"
    and ty: "stored_type (command2types env cc) = type_of_value v"
    by (auto simp: add_option_string_def Let_def split: if_splits option.splits)
  let ?out = "if cc = Log \<and> \<not> LogCompilation env then LogCompilation_warning else []"
  from assms m ty have "extends env st [set_value v (init cc (type_of_value v) m)] ?out st'"
    by (auto simp: add_option_string_def Let_def extends_def consequential_def init_def
          set_value_def well_typed_def)
  moreover have "\<not> rejected ?out"
    using not_rejected_warning by (simp add: rejected_def)
  ultimately show ?thesis using m ty by blast
qed

lemma truncate_set_value_init [simp]:
  "MethodMatcher.truncate (set_value v (init cc ty m)) = MethodMatcher.truncate m"
  by (simp add: set_value_def init_def MethodMatcher.truncate_def)

lemma m_option_set_value_init [simp]:
  "m_option (set_value v (init cc ty m)) = cc"
  "m_type (set_value v (init cc ty m)) = ty"
  "m_u (set_value v (init cc ty m)) = Some v"
  by (simp_all add: set_value_def init_def)

lemma jio_snprintf_nonempty: "1 < n \<Longrightarrow> s \<noteq> [] \<Longrightarrow> jio_snprintf n s \<noteq> []"
  by (cases s) (auto simp: jio_snprintf_def take_Cons')

lemma messages_nonempty:
  "cannot_be_read a b \<noteq> []" "cannot_be_read a b @ c \<noteq> []" "type_not_supported a \<noteq> []"
  "flag_name_unknown a \<noteq> []" "flag_type_mismatch a b d \<noteq> []" "flag_name_not_alphanumeric a \<noteq> []"
  by (simp_all add: cannot_be_read_def type_not_supported_def flag_name_unknown_def
        flag_type_mismatch_def flag_name_not_alphanumeric_def)

lemma scan_outcome_error: "1 < n \<Longrightarrow> s \<noteq> [] \<Longrightarrow> scan_outcome env st st (jio_snprintf n s)"
  by (simp add: scan_outcome_def jio_snprintf_nonempty)

lemma add_and_return_outcome:
  "add_and_return env matcher cc v tot [] st = Inr (st', tot1, eb) \<Longrightarrow> scan_outcome env st st' eb"
  by (auto simp: add_and_return_def scan_outcome_def split: sum.splits
           dest!: add_option_string_extends)

lemma scan_value_outcome:
  assumes "scan_value env ty line tot matcher cc [] n st = Inr (st', tot1, eb)" and "1 < n"
  shows "scan_outcome env st st' eb"
proof (cases ty)
  case Intx
  with assms show ?thesis
    by (auto simp: scan_value_def Let_def messages_nonempty scan_outcome_error
             split: option.splits elim: add_and_return_outcome)
next
  case Uintx
  with assms show ?thesis
    by (auto simp: scan_value_def Let_def messages_nonempty scan_outcome_error
             split: option.splits elim: add_and_return_outcome)
next
  case Bool
  with assms show ?thesis
    by (auto simp: scan_value_def Let_def messages_nonempty scan_outcome_error
             split: option.splits if_splits elim: add_and_return_outcome)
next
  case Ccstr
  with assms show ?thesis
    by (auto simp: scan_value_def Let_def messages_nonempty scan_outcome_error
             split: option.splits elim: add_and_return_outcome)
next
  case Ccstrlist
  with assms show ?thesis
    apply (auto simp: scan_value_def Let_def messages_nonempty scan_outcome_error
             split: option.splits sum.splits)
    apply (erule add_and_return_outcome)
    done
next
  case Double
  with assms show ?thesis
    by (auto simp: scan_value_def Let_def messages_nonempty scan_outcome_error
             split: option.splits elim: add_and_return_outcome)
next
  case Unknown_type
  with assms show ?thesis
    by (auto simp: scan_value_def Let_def messages_nonempty scan_outcome_error)
qed

lemma scan_flag_and_value_outcome:
  assumes "scan_flag_and_value env ty line behind matcher [] n st = Inr (st', tot1, eb)" and "1 < n"
  shows "scan_outcome env st st' eb"
proof (cases "sscanf_blank_set 255 set_alnum line")
  case None
  with assms show ?thesis
    by (auto simp: scan_flag_and_value_def messages_nonempty scan_outcome_error)
next
  case (Some p)
  obtain flag bytes_read where p: "p = (flag, bytes_read)"
    by (cases p)
  let ?cc = "fst (parse_command_name env flag)"
  consider (unknown_flag) "?cc = Unknown"
    | (other_type) "?cc \<noteq> Unknown" "command2types env ?cc \<noteq> ty"
    | (scanned) line2 behind2 where "?cc \<noteq> Unknown" "command2types env ?cc = ty"
        "increment (drop bytes_read line) behind = Inr (line2, behind2)"
        "scan_value env ty line2 (bytes_read + 1) matcher ?cc [] n st = Inr (st', tot1, eb)"
    using assms(1) Some p
    by (auto simp: scan_flag_and_value_def Let_def split: if_splits sum.splits)
  then show ?thesis
  proof cases
    case unknown_flag
    with assms Some p show ?thesis
      by (auto simp: scan_flag_and_value_def Let_def messages_nonempty scan_outcome_error)
  next
    case other_type
    with assms Some p show ?thesis
      by (auto simp: scan_flag_and_value_def Let_def messages_nonempty scan_outcome_error)
  next
    case scanned
    from scan_value_outcome [OF scanned(4) assms(2)] show ?thesis .
  qed
qed

lemma not_rejected_echo:
  "\<not> rejected (Tty_print p # [Tty_print_base b, Tty_option_value t n v] @ (if c then [Tty_cr] else []))"
  by (simp add: rejected_def parse_error_header_def unrecognized_header_def)

lemma echo_extends:
  assumes "echo env prefix with_cr st = Inr st'"
  shows "\<exists>out. extends env st [] out st' \<and> \<not> rejected out"
proof -
  from assms obtain m nxt out where "option_list st = m # nxt"
    and out: "print_matcher env m = Inr out"
    and st': "st' = tty_print (Tty_print prefix # out @ (if with_cr then [Tty_cr] else [])) st"
    by (auto simp: echo_def split: list.splits sum.splits)
  from out have "out = [Tty_print_base (MethodMatcher.truncate m),
                        Tty_option_value (m_type m) (command_names env (m_option m)) (m_u m)]"
    by (simp add: print_matcher_def Let_def split: if_splits)
  with st' not_rejected_echo extends_tty_print show ?thesis
    by blast
qed

lemma echo_unless_quiet_extends:
  assumes "echo_unless_quiet env command with_cr st = Inr st'"
  shows "\<exists>out. extends env st [] out st' \<and> \<not> rejected out"
proof (cases "quiet st")
  case True
  with assms have "st' = st"
    by (simp add: echo_unless_quiet_def)
  moreover have "\<not> rejected []"
    by (simp add: rejected_def)
  ultimately show ?thesis
    using extends_refl by blast
next
  case False
  with assms show ?thesis
    by (auto simp: echo_unless_quiet_def dest: echo_extends)
qed

lemma print_parse_error_extends:
  "\<exists>out. extends env st [] out (print_parse_error e l st) \<and> rejected out"
  unfolding print_parse_error_def
  by (intro exI conjI, rule extends_tty_print) (simp add: rejected_def)

lemma unrecognized_command_extends:
  "\<exists>out. extends env st [] out (unrecognized_command l st) \<and> rejected out"
  unfolding unrecognized_command_def
  by (intro exI conjI, rule extends_tty_print) (simp add: rejected_def)

lemma not_rejected_Nil: "\<not> rejected []"
  by (simp add: rejected_def)

lemma option_clause_outcome:
  assumes "option_clause env command archetype original option_type line behind st = Inr (st', res)"
  shows "(res = None \<and> (\<exists>out. extends env st [] out st' \<and> rejected out))
         \<or> (\<exists>c r out. res = Some c \<and> extends env st [r] out st' \<and> \<not> rejected out)"
proof (cases "parse_option_type option_type = Unknown_type")
  case False
  let ?ty = "parse_option_type option_type"
  from assms False obtain st1 bytes_read errorbuf where
    scan: "scan_flag_and_value env ?ty line behind (Some (clone archetype)) [] 1024 st
             = Inr (st1, bytes_read, errorbuf)"
    by (auto simp: option_clause_def Let_def split: sum.splits)
  have outcome: "scan_outcome env st st1 errorbuf"
    by (rule scan_flag_and_value_outcome [OF scan]) simp
  show ?thesis
  proof (cases "errorbuf = []")
    case True
    with assms False scan obtain st2 c where
      e: "echo_unless_quiet env command False st1 = Inr st2" and r: "st' = st2" "res = Some c"
      by (auto simp: option_clause_def Let_def split: sum.splits prod.splits)
    from outcome True obtain r out where 1: "extends env st [r] out st1" "\<not> rejected out"
      by (auto simp: scan_outcome_def)
    from echo_unless_quiet_extends [OF e] obtain out2 where 2: "extends env st1 [] out2 st2" "\<not> rejected out2"
      by blast
    have "extends env st [r] (out @ out2) st'"
      using extends_trans [OF 1(1) 2(1)] r by simp
    moreover have "\<not> rejected (out @ out2)"
      using 1(2) 2(2) by (simp add: rejected_append)
    ultimately show ?thesis
      using r by blast
  next
    case e: False
    with assms False scan have "st' = print_parse_error errorbuf original st1" "res = None"
      by (auto simp: option_clause_def Let_def)
    moreover from outcome e have "st1 = st"
      by (simp add: scan_outcome_def)
    ultimately show ?thesis
      using print_parse_error_extends [of env st errorbuf original] by simp
  qed
next
  case True
  let ?cc = "fst (parse_command_name env option_type)"
  show ?thesis
  proof (cases "?cc = Unknown")
    case u: True
    with assms True have "st' = unrecognized_command original st" "res = None"
      by (auto simp: option_clause_def Let_def)
    then show ?thesis
      using unrecognized_command_extends [of env st original] by simp
  next
    case u: False
    with assms True obtain st1 where
      a: "add_option_string env (Some (clone archetype)) ?cc (bool_value True) st = Inr st1"
      and e: "echo_unless_quiet env command False st1 = Inr st'"
      and r: "res = Some (drop (skip_whitespace line) line, behind)"
      by (auto simp: option_clause_def Let_def split: sum.splits)
    from add_option_string_extends [OF a] obtain r out where 1: "extends env st [r] out st1" "\<not> rejected out"
      by blast
    from echo_unless_quiet_extends [OF e] obtain out2 where 2: "extends env st1 [] out2 st'" "\<not> rejected out2"
      by blast
    have "extends env st [r] (out @ out2) st'"
      using extends_trans [OF 1(1) 2(1)] by simp
    moreover have "\<not> rejected (out @ out2)"
      using 1(2) 2(2) by (simp add: rejected_append)
    ultimately show ?thesis
      using r by blast
  qed
qed

lemma option_loop_extends:
  "option_loop env command archetype original line behind st = Inr st'
   \<Longrightarrow> \<exists>rs out. extends env st rs out st'"
proof (induction env command archetype original line behind st rule: option_loop.induct)
  case (1 env command archetype original line behind st)
  show ?case
  proof (cases "sscanf_set 255 set_alnum line")
    case None
    with "1.prems" have "st' = st"
      by (simp add: option_loop.simps)
    then show ?thesis
      using extends_refl by blast
  next
    case (Some p)
    obtain option_type bytes_read where p: "p = (option_type, bytes_read)"
      by (cases p)
    from "1.prems" Some p obtain st1 res where
      c: "option_clause env command archetype original option_type (drop bytes_read line) behind st
            = Inr (st1, res)"
      by (auto simp: option_loop.simps split: sum.splits)
    show ?thesis
    proof (cases res)
      case None
      with "1.prems" Some p c have "st' = st1"
        by (simp add: option_loop.simps)
      with option_clause_outcome [OF c] None show ?thesis
        by auto
    next
      case (Some cur)
      obtain line1 behind1 where cur: "cur = (line1, behind1)"
        by (cases cur)
      with Some "1.prems" \<open>sscanf_set 255 set_alnum line = Some p\<close> p c
      have "option_loop env command archetype original line1 behind1 st1 = Inr st'"
        by (simp add: option_loop.simps)
      from "1.IH" [OF \<open>sscanf_set 255 set_alnum line = Some p\<close> p [symmetric] c _ Some
                      cur [symmetric] this]
      obtain rs out where "extends env st1 rs out st'"
        by auto
      moreover from option_clause_outcome [OF c] Some obtain r out1 where "extends env st [r] out1 st1"
        by auto
      ultimately show ?thesis
        using extends_trans by blast
    qed
  qed
qed

lemma parse_from_line_comment:
  "line = [] \<or> hd line = CHR ''#'' \<Longrightarrow> parse_from_line env line behind st = Inr st"
  by (auto simp: parse_from_line_def)

lemma parse_from_line_outcome:
  assumes "parse_from_line env line behind st = Inr st'"
  shows "st' = st\<lparr>quiet := True\<rparr>
         \<or> (\<exists>rs out. extends env st rs out st'
                \<and> (rejected out \<longrightarrow> fst (parse_command_name env line) \<noteq> Option \<longrightarrow> rs = []))"
proof -
  obtain command bytes_read where pc: "parse_command_name env line = (command, bytes_read)"
    by (cases "parse_command_name env line")
  let ?line1 = "drop bytes_read line"
  have none: "\<And>out. extends env st [] out st' \<Longrightarrow> ?thesis"
    by blast
  have accepted: "\<And>rs out. extends env st rs out st' \<Longrightarrow> \<not> rejected out \<Longrightarrow> ?thesis"
    by blast
  consider (is_comment) "line = [] \<or> hd line = CHR ''#''"
    | (is_unknown) "line \<noteq> []" "hd line \<noteq> CHR ''#''" "command = Unknown"
    | (is_quiet) "line \<noteq> []" "hd line \<noteq> CHR ''#''" "command = Quiet"
    | (is_help) "line \<noteq> []" "hd line \<noteq> CHR ''#''" "command = Help"
    | (is_option) "line \<noteq> []" "hd line \<noteq> CHR ''#''" "command = Option"
    | (is_other) "line \<noteq> []" "hd line \<noteq> CHR ''#''" "command \<noteq> Unknown" "command \<noteq> Quiet"
        "command \<noteq> Help" "command \<noteq> Option"
    by blast
  then show ?thesis
  proof cases
    case is_comment
    with assms have "st' = st"
      by (simp add: parse_from_line_comment)
    then show ?thesis
      using extends_refl [of env st] by (intro none) simp
  next
    case is_unknown
    with assms pc have "st' = unrecognized_command line st"
      by (simp add: parse_from_line_def)
    then show ?thesis
      using unrecognized_command_extends [of env st line] none by auto
  next
    case is_quiet
    with assms pc show ?thesis
      by (simp add: parse_from_line_def)
  next
    case is_help
    with assms pc have "st' = tty_print [Tty_usage] st"
      by (simp add: parse_from_line_def)
    then show ?thesis
      using extends_tty_print none by blast
  next
    case is_option
    from assms pc is_option obtain line2 behind2 where
      inc: "increment ?line1 behind = Inr (line2, behind2)"
      by (auto simp: parse_from_line_def split: sum.splits)
    show ?thesis
    proof (cases "fst (parse_method_pattern env line2)")
      case (Inl error_msg)
      with assms pc is_option inc have "st' = print_parse_error error_msg line st"
        by (auto simp: parse_from_line_def split: prod.splits)
      then show ?thesis
        using print_parse_error_extends [of env st error_msg line] none by auto
    next
      case (Inr archetype)
      with assms pc is_option inc obtain l where
        "option_loop env command archetype line l behind2 st = Inr st'"
        by (auto simp: parse_from_line_def split: prod.splits)
      from option_loop_extends [OF this] pc is_option show ?thesis
        by auto
    qed
  next
    case is_other
    consider (is_basic) "command2variant env command = Basic"
      | (is_standard) "command2variant env command = Standard"
      | (is_neither) "command2variant env command \<noteq> Basic" "command2variant env command \<noteq> Standard"
      by blast
    then show ?thesis
    proof cases
      case is_basic
      show ?thesis
      proof (cases "fst (parse_method_pattern env ?line1)")
        case (Inl error_msg)
        with assms pc is_other is_basic have "st' = print_parse_error error_msg line st"
          by (auto simp: parse_from_line_def split: prod.splits)
        then show ?thesis
          using print_parse_error_extends [of env st error_msg line] none by auto
      next
        case (Inr matcher)
        with assms pc is_other is_basic obtain st1 where
          a: "add_option_string env (Some matcher) command (bool_value True) st = Inr st1"
          and e: "echo_unless_quiet env command True st1 = Inr st'"
          by (auto simp: parse_from_line_def split: prod.splits sum.splits)
        from add_option_string_extends [OF a] obtain r out where 1: "extends env st [r] out st1" "\<not> rejected out"
          by blast
        from echo_unless_quiet_extends [OF e] obtain out2 where 2: "extends env st1 [] out2 st'" "\<not> rejected out2"
          by blast
        have "extends env st [r] (out @ out2) st'"
          using extends_trans [OF 1(1) 2(1)] by simp
        moreover have "\<not> rejected (out @ out2)"
          using 1(2) 2(2) by (simp add: rejected_append)
        ultimately show ?thesis
          by (rule accepted)
      qed
    next
      case is_standard
      from assms pc is_other is_standard obtain res line3 st1 n errorbuf where
        scan: "scan_value env (command2types env command) line3 0 res command [] 1024 st
                 = Inr (st1, n, errorbuf)"
        and rest: "if errorbuf \<noteq> [] then st' = print_parse_error errorbuf line st1
                   else echo_unless_quiet env command True st1 = Inr st'"
        by (auto simp: parse_from_line_def Let_def split: prod.splits sum.splits if_splits)
      have outcome: "scan_outcome env st st1 errorbuf"
        by (rule scan_value_outcome [OF scan]) simp
      show ?thesis
      proof (cases "errorbuf = []")
        case True
        with rest have e: "echo_unless_quiet env command True st1 = Inr st'"
          by simp
        from outcome True obtain r out where 1: "extends env st [r] out st1" "\<not> rejected out"
          by (auto simp: scan_outcome_def)
        from echo_unless_quiet_extends [OF e] obtain out2 where 2: "extends env st1 [] out2 st'" "\<not> rejected out2"
          by blast
        have "extends env st [r] (out @ out2) st'"
          using extends_trans [OF 1(1) 2(1)] by simp
        moreover have "\<not> rejected (out @ out2)"
          using 1(2) 2(2) by (simp add: rejected_append)
        ultimately show ?thesis
          by (rule accepted)
      next
        case False
        with rest outcome have "st' = print_parse_error errorbuf line st"
          by (simp add: scan_outcome_def)
        then show ?thesis
          using print_parse_error_extends [of env st errorbuf line] none by auto
      qed
    next
      case is_neither
      with assms pc is_other is_neither show ?thesis
        by (simp add: parse_from_line_def)
    qed
  qed
qed

lemma compile_only_round_extends:
  assumes "compile_only_round env method_sep className methodName line st
             = Inr (className', methodName', line', st')"
  shows "\<exists>rs out. extends env st rs out st' \<and> \<not> rejected out"
proof (cases "st' = st")
  case True
  then show ?thesis
    using extends_refl [of env st] not_rejected_Nil by blast
next
  case False
  with assms obtain tom st1 where
    a: "add_option_string env (Some tom) CompileOnly (bool_value True) st = Inr st1"
    and e: "(if PrintVMOptions env then echo env ''CompileOnly: compileonly '' False st1 else Inr st1)
              = Inr st'"
    by (auto simp: compile_only_round_def Let_def split: prod.splits if_splits sum.splits)
  from add_option_string_extends [OF a] obtain r out where 1: "extends env st [r] out st1" "\<not> rejected out"
    by blast
  from e obtain out2 where 2: "extends env st1 [] out2 st'" "\<not> rejected out2"
    using extends_refl [of env st1] not_rejected_Nil
    by (cases "PrintVMOptions env") (auto dest: echo_extends)
  have "extends env st [r] (out @ out2) st'"
    using extends_trans [OF 1(1) 2(1)] by simp
  moreover have "\<not> rejected (out @ out2)"
    using 1(2) 2(2) by (simp add: rejected_append)
  ultimately show ?thesis
    by blast
qed

lemma compile_only_loop_extends:
  "compile_only_loop env method_sep className methodName line st = Inr st'
   \<Longrightarrow> \<exists>rs out. extends env st rs out st' \<and> \<not> rejected out"
proof (induction env method_sep className methodName line st rule: compile_only_loop.induct)
  case (1 env method_sep className methodName line st)
  show ?case
  proof (cases "line = []")
    case True
    with "1.prems" have "st' = st"
      by (simp add: compile_only_loop.simps)
    then show ?thesis
      using extends_refl [of env st] not_rejected_Nil by blast
  next
    case False
    with "1.prems" obtain cn mn l st1 where
      r: "compile_only_round env method_sep className methodName line st = Inr (cn, mn, l, st1)"
      and rest: "compile_only_loop env method_sep cn mn l st1 = Inr st'"
      by (auto simp: compile_only_loop.simps [of env method_sep className methodName line st]
               split: sum.splits)
    from "1.IH" [OF False r refl refl refl rest] obtain rs out where 2: "extends env st1 rs out st'" "\<not> rejected out"
      by auto
    from compile_only_round_extends [OF r] obtain rs1 out1 where 1: "extends env st rs1 out1 st1" "\<not> rejected out1"
      by blast
    have "\<not> rejected (out1 @ out)"
      using 1(2) 2(2) by (simp add: rejected_append)
    with extends_trans [OF 1(1) 2(1)] show ?thesis
      by blast
  qed
qed

lemma parse_compile_only_extends:
  assumes "parse_compile_only env line st = Inr st'"
  shows "\<exists>rs out. extends env st rs out st'"
proof -
  let ?st0 = "if Verbose env then tty_print [Tty_print_cr line] st else st"
  from assms obtain rs out where "extends env ?st0 rs out st'"
    by (auto simp: parse_compile_only_def Let_def dest: compile_only_loop_extends)
  moreover have "\<exists>out0. extends env st [] out0 ?st0"
    using extends_refl [of env st] extends_tty_print [of env st] by auto
  then obtain out0 where "extends env st [] out0 ?st0"
    by blast
  ultimately have "extends env st (rs @ []) (out0 @ out) st'"
    by (rule extends_trans [rotated])
  then show ?thesis
    by auto
qed

lemma step_grows:
  assumes "step env st st'"
  shows "\<exists>rs. option_list st' = rs @ option_list st
              \<and> list_all (well_typed env) rs
              \<and> any_set st' = (any_set st \<or> (\<exists>r\<in>set rs. consequential (m_option r)))"
  using assms
proof cases
  case (step_add matcher cc v)
  from add_option_string_extends [OF this] show ?thesis
    by (auto simp: extends_def)
next
  case (step_line line behind)
  from parse_from_line_outcome [OF this] show ?thesis
    by (auto simp: extends_def)
next
  case (step_compile_only line)
  from parse_compile_only_extends [OF this] show ?thesis
    by (auto simp: extends_def)
qed

lemma reachable_any_set:
  "reachable env st \<Longrightarrow> any_set st = (\<exists>r\<in>set (option_list st). consequential (m_option r))"
proof (induction rule: reachable.induct)
  case reachable_initial
  show ?case
    by (simp add: initial_store_def)
next
  case (reachable_step st st')
  from step_grows [OF reachable_step.hyps(2)] reachable_step.IH show ?case
    by auto
qed

lemma reachable_well_typed:
  "reachable env st \<Longrightarrow> list_all (well_typed env) (option_list st)"
proof (induction rule: reachable.induct)
  case reachable_initial
  show ?case
    by (simp add: initial_store_def)
next
  case (reachable_step st st')
  from step_grows [OF reachable_step.hyps(2)] reachable_step.IH show ?case
    by auto
qed

lemma parse_quiet: "parse_from_line example_env ''quiet'' [] initial_store = Inr quiet_store"
  by code_simp

lemma parse_inline:
  "parse_from_line example_env ''inline,Foo.bar'' [] quiet_store = Inr inline_store"
  by code_simp

lemma parse_exclude:
  "parse_from_line example_env ''exclude,Foo.bar'' [] inline_store = Inr inline_exclude_store"
  by code_simp

lemma parse_option_exclude_false:
  "parse_from_line example_env ''option Foo.bar bool exclude false'' [] quiet_store
     = Inr exclude_false_store"
  by code_simp

lemma parse_option_log_false:
  "parse_from_line example_env ''option Foo.bar bool log false'' [] quiet_store
     = Inr log_false_store"
  by code_simp

lemma reachable_quiet_store: "reachable example_env quiet_store"
  by (rule reachable_step [OF reachable_initial step_line [OF parse_quiet]])

lemma reachable_inline_store: "reachable example_env inline_store"
  by (rule reachable_step [OF reachable_quiet_store step_line [OF parse_inline]])

lemma reachable_exclude_false_store: "reachable example_env exclude_false_store"
  by (rule reachable_step [OF reachable_quiet_store step_line [OF parse_option_exclude_false]])

lemma reachable_log_false_store: "reachable example_env log_false_store"
  by (rule reachable_step [OF reachable_quiet_store step_line [OF parse_option_log_false]])

lemma bool_typed_value: "type_of_value v = Bool \<Longrightarrow> \<exists>b. v = bool_value b"
  by (cases v) simp_all

lemma check_predicate_applies:
  assumes "reachable env st" and "command2types env k = Bool" and "k \<noteq> Unknown"
  shows "check_predicate env st k method = Inr (applies env st method k)"
proof (cases "first_match env st method k")
  case None
  with assms(2,3) show ?thesis
    by (simp add: check_predicate_def has_option_value_def stored_type_def match_eq_find
          applies_def first_match_def)
next
  case (Some r)
  then have "r \<in> set (option_list st)" and k: "m_option r = k"
    by (auto simp: first_match_def find_Some_iff)
  with reachable_well_typed [OF assms(1)] have "well_typed env r"
    by (simp add: list_all_iff)
  with k assms(2) obtain v where v: "m_u r = Some v" "type_of_value v = Bool"
    by (auto simp: well_typed_def stored_type_def)
  then obtain b where "v = bool_value b"
    using bool_typed_value by blast
  with v Some assms(2,3) show ?thesis
    by (simp add: check_predicate_def has_option_value_def stored_type_def match_eq_find
          applies_def first_match_def value_T_def)
qed

lemma applies_all_true:
  assumes "\<forall>r\<in>set (option_list st). m_option r = k \<longrightarrow> m_u r = Some (bool_value True)"
  shows "applies env st method k
         = (\<exists>r\<in>set (option_list st). m_option r = k \<and> matches env (MethodMatcher.truncate r) method)"
proof (cases "first_match env st method k")
  case None
  then have "\<not> (\<exists>r\<in>set (option_list st). m_option r = k
                     \<and> matches env (MethodMatcher.truncate r) method)"
    by (auto simp: first_match_def find_None_iff)
  moreover from None have "\<not> applies env st method k"
    by (simp add: applies_def)
  ultimately show ?thesis
    by simp
next
  case (Some r)
  then have "r \<in> set (option_list st)" "m_option r = k" "matches env (MethodMatcher.truncate r) method"
    by (auto simp: first_match_def find_Some_iff)
  with assms Some show ?thesis
    by (auto simp: applies_def)
qed

lemma parse_compile_only_Foo_bar:
  "parse_compile_only example_env ''Foo.bar'' quiet_store = Inr Foo_bar_only_store"
  by code_simp

lemma reachable_Foo_bar_only_store: "reachable example_env Foo_bar_only_store"
  by (rule reachable_step [OF reachable_quiet_store step_compile_only [OF parse_compile_only_Foo_bar]])

lemma copy_name_translates:
  "copy_name method_sep i line = (name, rest)
   \<Longrightarrow> name = map dot_to_slash (take (length name) line) \<and> rest = drop (length name) line"
proof (induction line arbitrary: i name rest)
  case Nil
  then show ?case by simp
next
  case (Cons c line)
  show ?case
  proof (cases "i < 1024 \<and> c \<noteq> method_sep \<and> c \<noteq> CHR '','' \<and> \<not> isspace c")
    case True
    obtain n r where nr: "copy_name method_sep (Suc i) line = (n, r)"
      by force
    with True Cons.prems have "name = dot_to_slash c # n" "rest = r"
      by (simp_all add: dot_to_slash_def)
    with Cons.IH [OF nr] show ?thesis
      by simp
  next
    case False
    with Cons.prems show ?thesis
      by auto
  qed
qed

lemma copy_name_stops_at_separator:
  "copy_name method_sep i line = (name, rest) \<Longrightarrow> method_sep \<notin> set (take (length name) line)"
proof (induction line arbitrary: i name rest)
  case Nil
  then show ?case by simp
next
  case (Cons c line)
  show ?case
  proof (cases "i < 1024 \<and> c \<noteq> method_sep \<and> c \<noteq> CHR '','' \<and> \<not> isspace c")
    case True
    obtain n r where nr: "copy_name method_sep (Suc i) line = (n, r)"
      by force
    with True Cons.prems have "name = dot_to_slash c # n"
      by (simp add: dot_to_slash_def)
    with Cons.IH [OF nr] True show ?thesis
      by auto
  next
    case False
    with Cons.prems show ?thesis
      by auto
  qed
qed

lemma copy_name_dot_unchanged:
  assumes "copy_name CHR ''.'' i line = (name, rest)"
  shows "name = take (length name) line"
proof -
  from copy_name_stops_at_separator [OF assms]
  have "map dot_to_slash (take (length name) line) = take (length name) line"
    by (intro map_idI) (auto simp: dot_to_slash_def)
  with copy_name_translates [OF assms] show ?thesis
    by simp
qed

















text \<open>
  Lines whose name, or whose flag name, ends the line: the parse goes on behind
  the terminator. With \<^verbatim>\<open>Foo.bar print\<close> behind it the line \<^verbatim>\<open>option\<close> adds a
  record; the boolean of \<^verbatim>\<open>option Foo.bar bool exclude\<close> is the shorthand when
  an empty string lies behind the line and \<^verbatim>\<open>false\<close> when that word lies there;
  where the array ends behind the line, the read is outside the array.
\<close>

lemma name_ends_the_line:
  "parse_from_line example_env ''option'' [''Foo.bar print''] quiet_store = Inr print_store"
  "parse_from_line example_env ''option Foo.bar bool exclude'' [''''] quiet_store
     = Inr (quiet_store\<lparr>option_list := [Foo_bar_as Exclude (bool_value True)], any_set := True\<rparr>)"
  "parse_from_line example_env ''option Foo.bar bool exclude'' [''false''] quiet_store
     = Inr exclude_false_store"
  "parse_from_line example_env ''option Foo.bar bool exclude'' [] quiet_store
     = Inl read_outside_array"
  by code_simp+

section \<open>Properties\<close>

subsection \<open>Comment lines\<close>

text \<open>
  C10: for an input line that is empty or starts with \<^verbatim>\<open>#\<close>,
  \<^verbatim>\<open>parse_from_line\<close> returns at once: the store, the quiet flag, the any-set
  flag and the console are as they were.
\<close>

theorem comment_lines_are_skipped:
  assumes "line = [] \<or> hd line = CHR ''#''"
  shows "parse_from_line env line behind st = Inr st"
  using assms by (auto simp: parse_from_line_def)

theorem comment_lines_are_skipped_witness:
  "parse_from_line example_env [] [] initial_store = Inr initial_store
   \<and> parse_from_line example_env ''# exclude,Foo.bar'' [] initial_store = Inr initial_store
   \<and> option_list initial_store = [] \<and> \<not> quiet initial_store \<and> \<not> any_set initial_store
   \<and> tty initial_store = []"
  using comment_lines_are_skipped [of "[]" example_env "[]" initial_store]
        comment_lines_are_skipped [of "''# exclude,Foo.bar''" example_env "[]" initial_store]
  by (simp add: initial_store_def)

subsection \<open>The typed query\<close>

text \<open>
  C7, as the code has it. \<^verbatim>\<open>has_option_value\<close> compares the requested type
  \<open>T\<close> with the type under which values of the directive kind are stored:
  the type registered for the kind, except that a string list is stored as a
  string. For every target, every directive kind (an enumerator of the table,
  not the sentinel \<open>Unknown\<close>) and every \<open>T\<close> that differs from the registered
  type, other than the request for a string from a string-list kind, the query
  with \<^verbatim>\<open>verify_type\<close> set returns false and leaves \<^verbatim>\<open>value\<close> as it was, and
  with \<^verbatim>\<open>verify_type\<close> clear it fails the assertion. A request for a string from
  a string-list kind is no mismatch: in both modes the record is looked up and
  its value returned.
\<close>

theorem lenient_query_tolerates_type_mismatch:
  assumes "opt \<noteq> Unknown"
  shows "(command2types env opt \<noteq> get_type_for T
          \<and> \<not> (command2types env opt = Ccstrlist \<and> T = T_ccstr)
          \<longrightarrow> has_option_value env st method opt T v True = Inr (False, v)
              \<and> has_option_value env st method opt T v False
                  = Inl (assert_failed ''Value type must match command type''))
         \<and> (command2types env opt = Ccstrlist
            \<longrightarrow> has_option_value env st method opt T_ccstr v verify_type
                  = (case match env (option_list st) method opt Ccstr of
                       Some m \<Rightarrow>
                         (case value_T T_ccstr m of
                            Inl e \<Rightarrow> Inl e
                          | Inr v' \<Rightarrow> Inr (True, v'))
                     | None \<Rightarrow> Inr (False, v)))"
proof (intro conjI impI)
  assume a: "command2types env opt \<noteq> get_type_for T
             \<and> \<not> (command2types env opt = Ccstrlist \<and> T = T_ccstr)"
  have "stored_type (command2types env opt) \<noteq> get_type_for T"
  proof (cases "command2types env opt = Ccstrlist")
    case True
    with a have "T \<noteq> T_ccstr"
      by simp
    with True show ?thesis
      by (cases T) (simp_all add: stored_type_def)
  next
    case False
    with a show ?thesis
      by (simp add: stored_type_def)
  qed
  with assms show "has_option_value env st method opt T v True = Inr (False, v)"
    and "has_option_value env st method opt T v False
           = Inl (assert_failed ''Value type must match command type'')"
    by (simp_all add: has_option_value_def)
next
  assume "command2types env opt = Ccstrlist"
  with assms show "has_option_value env st method opt T_ccstr v verify_type
                  = (case match env (option_list st) method opt Ccstr of
                       Some m \<Rightarrow>
                         (case value_T T_ccstr m of
                            Inl e \<Rightarrow> Inl e
                          | Inr v' \<Rightarrow> Inr (True, v'))
                     | None \<Rightarrow> Inr (False, v))"
    by (simp add: has_option_value_def stored_type_def)
qed

theorem lenient_query_tolerates_type_mismatch_witness:
  "Exclude \<noteq> Unknown
   \<and> command2types example_env Exclude \<noteq> get_type_for T_intx
   \<and> \<not> (command2types example_env Exclude = Ccstrlist \<and> T_intx = T_ccstr)
   \<and> match example_env (option_list inline_exclude_store) (''Foo'', ''bar'') Exclude Bool
       = Some (Foo_bar_as Exclude (bool_value True))
   \<and> has_option_value example_env inline_exclude_store (''Foo'', ''bar'') Exclude T_intx
         (intx_value 7) True
       = Inr (False, intx_value 7)
   \<and> has_option_value example_env inline_exclude_store (''Foo'', ''bar'') Exclude T_intx
         (intx_value 7) False
       = Inl (assert_failed ''Value type must match command type'')
   \<and> Custom 0 \<noteq> Unknown
   \<and> command2types example_env (Custom 0) = Ccstrlist
   \<and> has_option_value example_env string_list_store (''Foo'', ''bar'') (Custom 0) T_ccstr
         (ccstr_value ''unset'') True
       = Inr (True, ccstr_value ''a b'')
   \<and> has_option_value example_env string_list_store (''Foo'', ''bar'') (Custom 0) T_ccstr
         (ccstr_value ''unset'') False
       = Inr (True, ccstr_value ''a b'')"
proof -
  have 1: "Exclude \<noteq> Unknown"
    and 2: "command2types example_env Exclude \<noteq> get_type_for T_intx"
    and 3: "\<not> (command2types example_env Exclude = Ccstrlist \<and> T_intx = T_ccstr)"
    by simp_all
  have 4: "match example_env (option_list inline_exclude_store) (''Foo'', ''bar'') Exclude Bool
             = Some (Foo_bar_as Exclude (bool_value True))"
    by code_simp
  from lenient_query_tolerates_type_mismatch
         [OF 1, of example_env T_intx inline_exclude_store "(''Foo'', ''bar'')" "intx_value 7"] 2 3
  have 5: "has_option_value example_env inline_exclude_store (''Foo'', ''bar'') Exclude T_intx
             (intx_value 7) True
           = Inr (False, intx_value 7)
         \<and> has_option_value example_env inline_exclude_store (''Foo'', ''bar'') Exclude T_intx
             (intx_value 7) False
           = Inl (assert_failed ''Value type must match command type'')"
    by blast
  have 6: "Custom 0 \<noteq> Unknown" and 7: "command2types example_env (Custom 0) = Ccstrlist"
    by simp_all
  have 8: "(case match example_env (option_list string_list_store) (''Foo'', ''bar'') (Custom 0) Ccstr of
              Some m \<Rightarrow>
                (case value_T T_ccstr m of
                   Inl e \<Rightarrow> Inl e
                 | Inr v' \<Rightarrow> Inr (True, v'))
            | None \<Rightarrow> Inr (False, ccstr_value ''unset''))
           = (Inr (True, ccstr_value ''a b'') :: vm_error + bool \<times> option_value)"
    by code_simp
  note w = lenient_query_tolerates_type_mismatch
             [OF 6, where env = example_env and st = string_list_store
                and v = "ccstr_value ''unset''", THEN conjunct2, rule_format, OF 7]
  from w [of "(''Foo'', ''bar'')" True] 8
  have 9: "has_option_value example_env string_list_store (''Foo'', ''bar'') (Custom 0) T_ccstr
             (ccstr_value ''unset'') True
           = Inr (True, ccstr_value ''a b'')"
    by simp
  from w [of "(''Foo'', ''bar'')" False] 8
  have 10: "has_option_value example_env string_list_store (''Foo'', ''bar'') (Custom 0) T_ccstr
              (ccstr_value ''unset'') False
            = Inr (True, ccstr_value ''a b'')"
    by simp
  from 1 2 3 4 5 6 7 9 10 show ?thesis
    by blast
qed

text \<open>
  The sentence of the specification fails for a string-list kind queried as a
  string: \<^verbatim>\<open>ControlIntrinsic\<close> is registered as a string list, the requested type
  is the string type, and the two differ. After
  \<^verbatim>\<open>option Foo.bar ccstrlist ControlIntrinsic a b\<close> the query with \<^verbatim>\<open>verify_type\<close>
  set returns true and the stored string, not false and the value as it was; with
  \<^verbatim>\<open>verify_type\<close> clear it returns the same and fails no assertion.
\<close>

theorem lenient_query_string_list_counterexample:
  "parse_from_line example_env ''option Foo.bar ccstrlist ControlIntrinsic a b'' [] quiet_store
     = Inr string_list_store
   \<and> Custom 0 \<noteq> Unknown
   \<and> command2types example_env (Custom 0) = Ccstrlist
   \<and> get_type_for T_ccstr = Ccstr
   \<and> command2types example_env (Custom 0) \<noteq> get_type_for T_ccstr
   \<and> has_option_value example_env string_list_store (''Foo'', ''bar'') (Custom 0) T_ccstr
         (ccstr_value ''unset'') True
       = Inr (True, ccstr_value ''a b'')
   \<and> has_option_value example_env string_list_store (''Foo'', ''bar'') (Custom 0) T_ccstr
         (ccstr_value ''unset'') False
       = Inr (True, ccstr_value ''a b'')"
  by code_simp

subsection \<open>First match wins\<close>

text \<open>
  C1: for every store and target, \<^verbatim>\<open>TypedMethodOptionMatcher::match\<close> walks the
  list from its head and returns the first record whose kind is the requested
  one and whose pattern accepts the target. \<^verbatim>\<open>add_option_string\<close> puts a record
  at the head, so when two records of one kind are added and both match the
  target, the one added last is returned.
\<close>

theorem most_recent_match_wins:
  "match env l method opt ty
     = find (\<lambda>r. m_option r = opt \<and> matches env (MethodMatcher.truncate r) method) l
   \<and> (add_option_string env (Some m1) opt v1 st = Inr st1
      \<longrightarrow> add_option_string env (Some m2) opt v2 st1 = Inr st2
      \<longrightarrow> matches env (MethodMatcher.truncate m1) method
      \<longrightarrow> matches env (MethodMatcher.truncate m2) method
      \<longrightarrow> option_list st2
            = [set_value v2 (init opt (type_of_value v2) m2),
               set_value v1 (init opt (type_of_value v1) m1)] @ option_list st
          \<and> match env (option_list st2) method opt ty
              = Some (set_value v2 (init opt (type_of_value v2) m2)))"
proof (intro conjI impI)
  show "match env l method opt ty
     = find (\<lambda>r. m_option r = opt \<and> matches env (MethodMatcher.truncate r) method) l"
    by (rule match_eq_find)
next
  assume a1: "add_option_string env (Some m1) opt v1 st = Inr st1"
     and a2: "add_option_string env (Some m2) opt v2 st1 = Inr st2"
     and "matches env (MethodMatcher.truncate m1) method"
     and m2: "matches env (MethodMatcher.truncate m2) method"
  from add_option_string_extends [OF a1] add_option_string_extends [OF a2]
  show l2: "option_list st2
            = [set_value v2 (init opt (type_of_value v2) m2),
               set_value v1 (init opt (type_of_value v1) m1)] @ option_list st"
    by (auto simp: extends_def)
  from m2 show "match env (option_list st2) method opt ty
              = Some (set_value v2 (init opt (type_of_value v2) m2))"
    by (simp add: l2)
qed

theorem most_recent_match_wins_witness:
  "add_option_string example_env (Some Foo_bar) Print (bool_value True) quiet_store
     = Inr (quiet_store\<lparr>option_list := [Foo_bar_as Print (bool_value True)], any_set := True\<rparr>)
   \<and> add_option_string example_env (Some Foo_any) Print (bool_value False)
        (quiet_store\<lparr>option_list := [Foo_bar_as Print (bool_value True)], any_set := True\<rparr>)
     = Inr (quiet_store\<lparr>option_list := [set_value (bool_value False) (init Print Bool Foo_any),
                                         Foo_bar_as Print (bool_value True)],
                        any_set := True\<rparr>)
   \<and> matches example_env (MethodMatcher.truncate Foo_bar) (''Foo'', ''bar'')
   \<and> matches example_env (MethodMatcher.truncate Foo_any) (''Foo'', ''bar'')
   \<and> match example_env
        [set_value (bool_value False) (init Print Bool Foo_any), Foo_bar_as Print (bool_value True)]
        (''Foo'', ''bar'') Print Bool
      = Some (set_value (bool_value False) (init Print Bool Foo_any))"
proof -
  let ?st1 = "quiet_store\<lparr>option_list := [Foo_bar_as Print (bool_value True)], any_set := True\<rparr>"
  let ?st2 = "quiet_store\<lparr>option_list := [set_value (bool_value False) (init Print Bool Foo_any),
                                            Foo_bar_as Print (bool_value True)],
                           any_set := True\<rparr>"
  have a1: "add_option_string example_env (Some Foo_bar) Print (bool_value True) quiet_store = Inr ?st1"
    by code_simp
  have a2: "add_option_string example_env (Some Foo_any) Print (bool_value False) ?st1 = Inr ?st2"
    by code_simp
  have m1: "matches example_env (MethodMatcher.truncate Foo_bar) (''Foo'', ''bar'')"
    by code_simp
  have m2: "matches example_env (MethodMatcher.truncate Foo_any) (''Foo'', ''bar'')"
    by code_simp
  from most_recent_match_wins
         [of example_env "[]" "(''Foo'', ''bar'')" Print Bool Foo_bar "bool_value True" quiet_store
             ?st1 Foo_any "bool_value False" ?st2]
       a1 a2 m1 m2
  have "match example_env (option_list ?st2) (''Foo'', ''bar'') Print Bool
          = Some (set_value (bool_value False) (init Print (type_of_value (bool_value False)) Foo_any))"
    by blast
  with a1 a2 m1 m2 show ?thesis
    by simp
qed

subsection \<open>The flag \<^verbatim>\<open>any_set\<close>\<close>

text \<open>
  C9: in every store that the code can build, \<^verbatim>\<open>has_any_option\<close> is true
  exactly when the store holds a record whose kind is none of \<^verbatim>\<open>Inline\<close>,
  \<^verbatim>\<open>DontInline\<close> and \<^verbatim>\<open>Log\<close>. Every step only puts records in front of the
  list, and the flag after the step is the flag before it or the presence of
  such a record among the new ones: records of the three kinds alone leave it
  as it is, and it is never cleared.
\<close>

theorem any_set_tracks_consequential_records:
  "(reachable env st
      \<longrightarrow> has_any_option st
            = (\<exists>r\<in>set (option_list st).
                 m_option r \<noteq> Inline \<and> m_option r \<noteq> DontInline \<and> m_option r \<noteq> Log))
   \<and> (step env st st'
      \<longrightarrow> (\<exists>rs. option_list st' = rs @ option_list st
                \<and> has_any_option st'
                    = (has_any_option st
                       \<or> (\<exists>r\<in>set rs.
                            m_option r \<noteq> Inline \<and> m_option r \<noteq> DontInline \<and> m_option r \<noteq> Log))))"
proof (intro conjI impI)
  assume "reachable env st"
  from reachable_any_set [OF this]
  show "has_any_option st
            = (\<exists>r\<in>set (option_list st).
                 m_option r \<noteq> Inline \<and> m_option r \<noteq> DontInline \<and> m_option r \<noteq> Log)"
    by (auto simp: has_any_option_def consequential_def)
next
  assume "step env st st'"
  from step_grows [OF this]
  show "\<exists>rs. option_list st' = rs @ option_list st
                \<and> has_any_option st'
                    = (has_any_option st
                       \<or> (\<exists>r\<in>set rs.
                            m_option r \<noteq> Inline \<and> m_option r \<noteq> DontInline \<and> m_option r \<noteq> Log))"
    by (auto simp: has_any_option_def consequential_def)
qed

theorem any_set_tracks_consequential_records_witness:
  "reachable example_env inline_store
   \<and> has_any_option inline_store = False
   \<and> option_list inline_store = [Foo_bar_as Inline (bool_value True)]
   \<and> step example_env inline_store inline_exclude_store
   \<and> has_any_option inline_exclude_store = True
   \<and> option_list inline_exclude_store
       = [Foo_bar_as Exclude (bool_value True)] @ option_list inline_store"
proof -
  note w = any_set_tracks_consequential_records [of example_env inline_store inline_exclude_store]
  have s: "step example_env inline_store inline_exclude_store"
    by (rule step_line [OF parse_exclude])
  have l: "option_list inline_store = [Foo_bar_as Inline (bool_value True)]"
      "option_list inline_exclude_store
         = [Foo_bar_as Exclude (bool_value True)] @ option_list inline_store"
    by (simp_all add: inline_store_def inline_exclude_store_def)
  have k: "m_option (Foo_bar_as Inline (bool_value True)) = Inline"
      "m_option (Foo_bar_as Exclude (bool_value True)) = Exclude"
    by (simp_all add: Foo_bar_as_def)
  from w reachable_inline_store l k have 1: "has_any_option inline_store = False"
    by simp
  from w s l have "has_any_option inline_exclude_store
      = (has_any_option inline_store
         \<or> (\<exists>r\<in>set [Foo_bar_as Exclude (bool_value True)].
               m_option r \<noteq> Inline \<and> m_option r \<noteq> DontInline \<and> m_option r \<noteq> Log))"
    by auto
  with k have 2: "has_any_option inline_exclude_store = True"
    by simp
  from reachable_inline_store s l 1 2 show ?thesis
    by simp
qed

subsection \<open>The derived predicates\<close>

text \<open>
  C4, as the code has it: in a store that the code can build, with \<^verbatim>\<open>exclude\<close>
  and \<^verbatim>\<open>compileonly\<close> registered as boolean, \<^verbatim>\<open>should_exclude\<close> is true
  exactly when the first \<^verbatim>\<open>exclude\<close> record that matches the target carries
  the value true, or the store holds a \<^verbatim>\<open>compileonly\<close> record and the first
  \<^verbatim>\<open>compileonly\<close> record that matches the target, if there is one, does not
  carry the value true. When all records of the two kinds carry true, this is:
  the target matches an \<^verbatim>\<open>exclude\<close> record, or a \<^verbatim>\<open>compileonly\<close> record exists
  and the target matches none.
\<close>

theorem should_exclude_first_match_value:
  assumes "reachable env st"
      and "command2types env Exclude = Bool" and "command2types env CompileOnly = Bool"
  shows "should_exclude env st method
           = Inr (applies env st method Exclude
                  \<or> ((\<exists>r\<in>set (option_list st). m_option r = CompileOnly)
                      \<and> \<not> applies env st method CompileOnly))
         \<and> ((\<forall>r\<in>set (option_list st). m_option r = Exclude \<or> m_option r = CompileOnly
                   \<longrightarrow> m_u r = Some (bool_value True))
            \<longrightarrow> should_exclude env st method
                  = Inr ((\<exists>r\<in>set (option_list st). m_option r = Exclude
                             \<and> matches env (MethodMatcher.truncate r) method)
                         \<or> ((\<exists>r\<in>set (option_list st). m_option r = CompileOnly)
                             \<and> \<not> (\<exists>r\<in>set (option_list st). m_option r = CompileOnly
                                       \<and> matches env (MethodMatcher.truncate r) method))))"
proof -
  have e: "check_predicate env st Exclude method = Inr (applies env st method Exclude)"
    using assms by (simp add: check_predicate_applies)
  have c: "check_predicate env st CompileOnly method = Inr (applies env st method CompileOnly)"
    using assms by (simp add: check_predicate_applies)
  have 1: "should_exclude env st method
           = Inr (applies env st method Exclude
                  \<or> ((\<exists>r\<in>set (option_list st). m_option r = CompileOnly)
                      \<and> \<not> applies env st method CompileOnly))"
    by (simp add: should_exclude_def e c has_command_def has_command_list_iff)
  show ?thesis
  proof (intro conjI impI)
    show "should_exclude env st method
           = Inr (applies env st method Exclude
                  \<or> ((\<exists>r\<in>set (option_list st). m_option r = CompileOnly)
                      \<and> \<not> applies env st method CompileOnly))"
      by (rule 1)
  next
    assume a: "\<forall>r\<in>set (option_list st). m_option r = Exclude \<or> m_option r = CompileOnly
                   \<longrightarrow> m_u r = Some (bool_value True)"
    then have "applies env st method Exclude
         = (\<exists>r\<in>set (option_list st). m_option r = Exclude \<and> matches env (MethodMatcher.truncate r) method)"
      by (intro applies_all_true) simp
    moreover from a have "applies env st method CompileOnly
         = (\<exists>r\<in>set (option_list st). m_option r = CompileOnly \<and> matches env (MethodMatcher.truncate r) method)"
      by (intro applies_all_true) simp
    ultimately show "should_exclude env st method
                  = Inr ((\<exists>r\<in>set (option_list st). m_option r = Exclude
                             \<and> matches env (MethodMatcher.truncate r) method)
                         \<or> ((\<exists>r\<in>set (option_list st). m_option r = CompileOnly)
                             \<and> \<not> (\<exists>r\<in>set (option_list st). m_option r = CompileOnly
                                       \<and> matches env (MethodMatcher.truncate r) method)))"
      using 1 by simp
  qed
qed

theorem should_exclude_first_match_value_witness:
  "reachable example_env Foo_bar_only_store
   \<and> command2types example_env Exclude = Bool \<and> command2types example_env CompileOnly = Bool
   \<and> should_exclude example_env Foo_bar_only_store (''Baz'', ''qux'') = Inr True
   \<and> should_exclude example_env Foo_bar_only_store (''Foo'', ''bar'') = Inr False"
proof -
  note r = reachable_Foo_bar_only_store
  have t: "command2types example_env Exclude = Bool" "command2types example_env CompileOnly = Bool"
    by simp_all
  note w = should_exclude_first_match_value [OF r t, THEN conjunct1]
  have "(applies example_env Foo_bar_only_store (''Baz'', ''qux'') Exclude
         \<or> ((\<exists>r\<in>set (option_list Foo_bar_only_store). m_option r = CompileOnly)
             \<and> \<not> applies example_env Foo_bar_only_store (''Baz'', ''qux'') CompileOnly)) = True"
    by code_simp
  with w [of "(''Baz'', ''qux'')"]
  have 1: "should_exclude example_env Foo_bar_only_store (''Baz'', ''qux'') = Inr True"
    by simp
  have "(applies example_env Foo_bar_only_store (''Foo'', ''bar'') Exclude
         \<or> ((\<exists>r\<in>set (option_list Foo_bar_only_store). m_option r = CompileOnly)
             \<and> \<not> applies example_env Foo_bar_only_store (''Foo'', ''bar'') CompileOnly)) = False"
    by code_simp
  with w [of "(''Foo'', ''bar'')"]
  have 2: "should_exclude example_env Foo_bar_only_store (''Foo'', ''bar'') = Inr False"
    by simp
  from r t 1 2 show ?thesis
    by simp
qed

text \<open>
  The sentence of the specification fails on a record with the value false: the line
  \<^verbatim>\<open>option Foo.bar bool exclude false\<close> stores an \<^verbatim>\<open>exclude\<close> record that
  matches \<^verbatim>\<open>Foo.bar\<close>, and \<^verbatim>\<open>should_exclude\<close> is false for that target.
\<close>

theorem should_exclude_counterexample:
  "parse_from_line example_env ''option Foo.bar bool exclude false'' [] quiet_store
     = Inr exclude_false_store
   \<and> match example_env (option_list exclude_false_store) (''Foo'', ''bar'') Exclude Bool
       = Some (Foo_bar_as Exclude (bool_value False))
   \<and> should_exclude example_env exclude_false_store (''Foo'', ''bar'') = Inr False"
  by code_simp

text \<open>
  C8, as the code has it: \<^verbatim>\<open>should_log\<close> is false whenever \<^verbatim>\<open>LogCompilation\<close>
  is off, whatever the store holds. In a store that the code can build, with
  \<^verbatim>\<open>log\<close> registered as boolean, it is true exactly when \<^verbatim>\<open>LogCompilation\<close> is
  on and either no \<^verbatim>\<open>log\<close> record exists or the first \<^verbatim>\<open>log\<close> record that
  matches the target carries the value true. When all \<^verbatim>\<open>log\<close> records carry
  true, the last condition is: the target matches some \<^verbatim>\<open>log\<close> record.
\<close>

theorem should_log_first_match_value:
  "(\<not> LogCompilation env \<longrightarrow> should_log env st method = Inr False)
   \<and> (reachable env st \<longrightarrow> command2types env Log = Bool
      \<longrightarrow> should_log env st method
            = Inr (LogCompilation env
                   \<and> (\<not> (\<exists>r\<in>set (option_list st). m_option r = Log)
                       \<or> applies env st method Log)))
   \<and> (reachable env st \<longrightarrow> command2types env Log = Bool
      \<longrightarrow> (\<forall>r\<in>set (option_list st). m_option r = Log \<longrightarrow> m_u r = Some (bool_value True))
      \<longrightarrow> should_log env st method
            = Inr (LogCompilation env
                   \<and> (\<not> (\<exists>r\<in>set (option_list st). m_option r = Log)
                       \<or> (\<exists>r\<in>set (option_list st). m_option r = Log
                             \<and> matches env (MethodMatcher.truncate r) method))))"
proof -
  have off: "\<not> LogCompilation env \<Longrightarrow> should_log env st method = Inr False"
    by (simp add: should_log_def)
  have on: "should_log env st method
            = Inr (LogCompilation env
                   \<and> (\<not> (\<exists>r\<in>set (option_list st). m_option r = Log)
                       \<or> applies env st method Log))"
    if "reachable env st" "command2types env Log = Bool"
    using check_predicate_applies [OF that, of "method"]
    by (auto simp: should_log_def has_command_def has_command_list_iff)
  have all_true: "applies env st method Log
         = (\<exists>r\<in>set (option_list st). m_option r = Log \<and> matches env (MethodMatcher.truncate r) method)"
    if "\<forall>r\<in>set (option_list st). m_option r = Log \<longrightarrow> m_u r = Some (bool_value True)"
    using that by (rule applies_all_true)
  show ?thesis
    using off on all_true by auto
qed

theorem should_log_first_match_value_witness:
  "\<not> LogCompilation (example_env\<lparr>LogCompilation := False\<rparr>)
   \<and> should_log (example_env\<lparr>LogCompilation := False\<rparr>) log_false_store (''Foo'', ''bar'') = Inr False
   \<and> reachable example_env inline_store \<and> command2types example_env Log = Bool
   \<and> should_log example_env inline_store (''Baz'', ''qux'') = Inr True
   \<and> reachable example_env log_false_store
   \<and> should_log example_env log_false_store (''Baz'', ''qux'') = Inr False"
proof -
  note w = should_log_first_match_value
  have 0: "\<not> LogCompilation (example_env\<lparr>LogCompilation := False\<rparr>)"
    by simp
  with w [of "example_env\<lparr>LogCompilation := False\<rparr>" log_false_store "(''Foo'', ''bar'')"]
  have 1: "should_log (example_env\<lparr>LogCompilation := False\<rparr>) log_false_store (''Foo'', ''bar'')
             = Inr False"
    by blast
  have t: "command2types example_env Log = Bool"
    by simp
  have "(LogCompilation example_env
         \<and> (\<not> (\<exists>r\<in>set (option_list inline_store). m_option r = Log)
             \<or> applies example_env inline_store (''Baz'', ''qux'') Log)) = True"
    by code_simp
  with w [of example_env inline_store "(''Baz'', ''qux'')"] reachable_inline_store t
  have 2: "should_log example_env inline_store (''Baz'', ''qux'') = Inr True"
    by simp
  have "(LogCompilation example_env
         \<and> (\<not> (\<exists>r\<in>set (option_list log_false_store). m_option r = Log)
             \<or> applies example_env log_false_store (''Baz'', ''qux'') Log)) = False"
    by code_simp
  with w [of example_env log_false_store "(''Baz'', ''qux'')"] reachable_log_false_store t
  have 3: "should_log example_env log_false_store (''Baz'', ''qux'') = Inr False"
    by simp
  from 0 1 2 3 t reachable_inline_store reachable_log_false_store show ?thesis
    by simp
qed

text \<open>
  The sentence of the specification fails on a record with the value false: after
  \<^verbatim>\<open>option Foo.bar bool log false\<close>, with \<^verbatim>\<open>LogCompilation\<close> on, the target
  \<^verbatim>\<open>Foo.bar\<close> matches a \<^verbatim>\<open>log\<close> record and \<^verbatim>\<open>should_log\<close> is false.
\<close>

theorem should_log_counterexample:
  "parse_from_line example_env ''option Foo.bar bool log false'' [] quiet_store
     = Inr log_false_store
   \<and> LogCompilation example_env
   \<and> match example_env (option_list log_false_store) (''Foo'', ''bar'') Log Bool
       = Some (Foo_bar_as Log (bool_value False))
   \<and> should_log example_env log_false_store (''Foo'', ''bar'') = Inr False"
  by code_simp

subsection \<open>Scanning a boolean value\<close>

text \<open>
  C6: \<^verbatim>\<open>scan_value\<close> for a boolean directive, with a matcher \<open>m\<close> at hand. The
  remaining text is the line behind its leading blanks. If it is empty, the
  record is stored with the value true. Otherwise the alphabetic token at its
  start (at most 255 letters) decides: \<^verbatim>\<open>true\<close> and \<^verbatim>\<open>false\<close>, in exactly this
  spelling, store the record with that value; with any other token, or none,
  the store stays as it is and a message is left in \<^verbatim>\<open>errorbuf\<close>. The record
  stored is the one \<^verbatim>\<open>add_option_string\<close> puts at the head of the list: the
  pattern of \<open>m\<close> with the directive, the type \<open>Bool\<close> and the boolean in the
  union.
\<close>

theorem scan_bool_value:
  assumes "command2types env cc_option = Bool" and "1 < buf_size"
      and "line = drop (skip_whitespace line0) line0"
      and "token = take 255 (takeWhile set_alpha line)"
  shows "(line = [] \<longrightarrow>
            (\<exists>st'. scan_value env Bool line0 tot (Some m) cc_option [] buf_size st
                      = Inr (st', tot + skip_whitespace line0, [])
                  \<and> add_option_string env (Some m) cc_option (bool_value True) st = Inr st'
                  \<and> option_list st'
                      = m\<lparr>m_option := cc_option, m_type := Bool, m_u := Some (bool_value True)\<rparr>
                        # option_list st
                  \<and> m_u (hd (option_list st')) = Some (bool_value True)))
         \<and> (token = ''true'' \<longrightarrow>
            (\<exists>st'. scan_value env Bool line0 tot (Some m) cc_option [] buf_size st
                      = Inr (st', tot + skip_whitespace line0 + 4, [])
                  \<and> add_option_string env (Some m) cc_option (bool_value True) st = Inr st'
                  \<and> option_list st'
                      = m\<lparr>m_option := cc_option, m_type := Bool, m_u := Some (bool_value True)\<rparr>
                        # option_list st
                  \<and> m_u (hd (option_list st')) = Some (bool_value True)))
         \<and> (token = ''false'' \<longrightarrow>
            (\<exists>st'. scan_value env Bool line0 tot (Some m) cc_option [] buf_size st
                      = Inr (st', tot + skip_whitespace line0 + 5, [])
                  \<and> add_option_string env (Some m) cc_option (bool_value False) st = Inr st'
                  \<and> option_list st'
                      = m\<lparr>m_option := cc_option, m_type := Bool, m_u := Some (bool_value False)\<rparr>
                        # option_list st
                  \<and> m_u (hd (option_list st')) = Some (bool_value False)))
         \<and> (line \<noteq> [] \<and> token \<noteq> ''true'' \<and> token \<noteq> ''false'' \<longrightarrow>
            scan_value env Bool line0 tot (Some m) cc_option [] buf_size st
              = Inr (st, tot + skip_whitespace line0,
                     jio_snprintf buf_size
                       (cannot_be_read (command_names env cc_option) (optiontype_names env Bool)))
            \<and> jio_snprintf buf_size
                 (cannot_be_read (command_names env cc_option) (optiontype_names env Bool)) \<noteq> [])"
proof -
  let ?message = "jio_snprintf buf_size
                    (cannot_be_read (command_names env cc_option) (optiontype_names env Bool))"
  let ?skipped = "tot + skip_whitespace line0"
  have msg: "?message \<noteq> []"
    using assms(2) by (simp add: jio_snprintf_nonempty messages_nonempty)
  have scan: "sscanf_set 255 set_alpha line = (if token = [] then None else Some (token, length token))"
    by (simp add: sscanf_set_def Let_def assms(4))
  have unfold: "scan_value env Bool line0 tot (Some m) cc_option [] buf_size st
      = (if line = [] then add_and_return env (Some m) cc_option (bool_value True) ?skipped [] st
         else if token = ''true''
           then add_and_return env (Some m) cc_option (bool_value True) (?skipped + 4) [] st
         else if token = ''false''
           then add_and_return env (Some m) cc_option (bool_value False) (?skipped + 5) [] st
         else Inr (st, ?skipped, ?message))"
    unfolding scan_value_def Let_def assms(3) [symmetric] scan
    by (auto simp: eval_nat_numeral)
  have stored: "\<exists>st'. add_and_return env (Some m) cc_option (bool_value b) n [] st = Inr (st', n, [])
                   \<and> add_option_string env (Some m) cc_option (bool_value b) st = Inr st'
                   \<and> option_list st'
                       = m\<lparr>m_option := cc_option, m_type := Bool, m_u := Some (bool_value b)\<rparr>
                         # option_list st
                   \<and> m_u (hd (option_list st')) = Some (bool_value b)"
    for b n
    using assms(1)
    by (simp add: add_and_return_def add_option_string_def Let_def stored_type_def
          set_value_def init_def)
  have nonempty: "line \<noteq> []" if "token \<noteq> []"
    using that assms(4) by auto
  show ?thesis
    unfolding unfold using stored msg nonempty by auto
qed

theorem scan_bool_value_witness:
  "command2types example_env Exclude = Bool \<and> (1::nat) < 1024
   \<and> scan_value example_env Bool ''  '' 0 (Some Foo_bar) Exclude [] 1024 quiet_store
       = Inr (quiet_store
                \<lparr>option_list :=
                   [\<lparr>class_mode = Exact, class_name = Some ''Foo'',
                     method_mode = Exact, method_name = Some ''bar'', signature = None,
                     m_option = Exclude, m_type = Bool, m_u = Some (bool_value True)\<rparr>],
                 any_set := True\<rparr>,
              2, [])
   \<and> scan_value example_env Bool '' true'' 0 (Some Foo_bar) Exclude [] 1024 quiet_store
       = Inr (quiet_store
                \<lparr>option_list :=
                   [\<lparr>class_mode = Exact, class_name = Some ''Foo'',
                     method_mode = Exact, method_name = Some ''bar'', signature = None,
                     m_option = Exclude, m_type = Bool, m_u = Some (bool_value True)\<rparr>],
                 any_set := True\<rparr>,
              5, [])
   \<and> scan_value example_env Bool ''false'' 0 (Some Foo_bar) Exclude [] 1024 quiet_store
       = Inr (quiet_store
                \<lparr>option_list :=
                   [\<lparr>class_mode = Exact, class_name = Some ''Foo'',
                     method_mode = Exact, method_name = Some ''bar'', signature = None,
                     m_option = Exclude, m_type = Bool, m_u = Some (bool_value False)\<rparr>],
                 any_set := True\<rparr>,
              5, [])
   \<and> scan_value example_env Bool ''TRUE'' 0 (Some Foo_bar) Exclude [] 1024 quiet_store
       = Inr (quiet_store, 0, ''  Value cannot be read for flag exclude of type bool'')
   \<and> scan_value example_env Bool ''1'' 0 (Some Foo_bar) Exclude [] 1024 quiet_store
       = Inr (quiet_store, 0, ''  Value cannot be read for flag exclude of type bool'')"
proof -
  let ?stored = "\<lambda>b. quiet_store
                \<lparr>option_list :=
                   [\<lparr>class_mode = Exact, class_name = Some ''Foo'',
                     method_mode = Exact, method_name = Some ''bar'', signature = None,
                     m_option = Exclude, m_type = Bool, m_u = Some (bool_value b)\<rparr>],
                 any_set := True\<rparr>"
  have t: "command2types example_env Exclude = Bool" and n: "(1::nat) < 1024"
    by simp_all
  have add: "add_option_string example_env (Some Foo_bar) Exclude (bool_value True) quiet_store
               = Inr (?stored True)"
      "add_option_string example_env (Some Foo_bar) Exclude (bool_value False) quiet_store
               = Inr (?stored False)"
    by code_simp+
  have l1: "[] = drop (skip_whitespace ''  '') ''  ''"
    and k1: "[] = take 255 (takeWhile set_alpha [])"
    and s1: "skip_whitespace ''  '' = 2"
    by code_simp+
  from scan_bool_value [OF t n l1 k1, of 0 Foo_bar quiet_store] add s1
  have 1: "scan_value example_env Bool ''  '' 0 (Some Foo_bar) Exclude [] 1024 quiet_store
             = Inr (?stored True, 2, [])"
    by auto
  have l2: "''true'' = drop (skip_whitespace '' true'') '' true''"
    and k2: "''true'' = take 255 (takeWhile set_alpha ''true'')"
    and s2: "skip_whitespace '' true'' = 1"
    by code_simp+
  from scan_bool_value [OF t n l2 k2, of 0 Foo_bar quiet_store] add s2
  have 2: "scan_value example_env Bool '' true'' 0 (Some Foo_bar) Exclude [] 1024 quiet_store
             = Inr (?stored True, 5, [])"
    by auto
  have l3: "''false'' = drop (skip_whitespace ''false'') ''false''"
    and k3: "''false'' = take 255 (takeWhile set_alpha ''false'')"
    and s3: "skip_whitespace ''false'' = 0"
    by code_simp+
  from scan_bool_value [OF t n l3 k3, of 0 Foo_bar quiet_store] add s3
  have 3: "scan_value example_env Bool ''false'' 0 (Some Foo_bar) Exclude [] 1024 quiet_store
             = Inr (?stored False, 5, [])"
    by auto
  have m: "jio_snprintf 1024
             (cannot_be_read (command_names example_env Exclude) (optiontype_names example_env Bool))
           = ''  Value cannot be read for flag exclude of type bool''"
    by code_simp
  have l4: "''TRUE'' = drop (skip_whitespace ''TRUE'') ''TRUE''"
    and k4: "''TRUE'' = take 255 (takeWhile set_alpha ''TRUE'')"
    and s4: "skip_whitespace ''TRUE'' = 0"
    by code_simp+
  from scan_bool_value [OF t n l4 k4, of 0 Foo_bar quiet_store] m s4
  have 4: "scan_value example_env Bool ''TRUE'' 0 (Some Foo_bar) Exclude [] 1024 quiet_store
       = Inr (quiet_store, 0, ''  Value cannot be read for flag exclude of type bool'')"
    by simp
  have l5: "''1'' = drop (skip_whitespace ''1'') ''1''"
    and k5: "[] = take 255 (takeWhile set_alpha ''1'')"
    and s5: "skip_whitespace ''1'' = 0"
    by code_simp+
  from scan_bool_value [OF t n l5 k5, of 0 Foo_bar quiet_store] m s5
  have 5: "scan_value example_env Bool ''1'' 0 (Some Foo_bar) Exclude [] 1024 quiet_store
       = Inr (quiet_store, 0, ''  Value cannot be read for flag exclude of type bool'')"
    by simp
  from t n 1 2 3 4 5 show ?thesis
    by blast
qed

subsection \<open>Scanning a string list\<close>

text \<open>
  C2 does not hold: the loop of the string-list branch moves \<^verbatim>\<open>next_value\<close> by
  \<^verbatim>\<open>bytes_read\<close>, which counts the blanks before a token as well, so behind a
  token that follows a run of two or more blanks the terminating NUL stays in
  the buffer and the later tokens are lost. The text \<^verbatim>\<open>a b  c\<close> is stored as
  \<^verbatim>\<open>a b c\<close>, the text \<^verbatim>\<open>a  b c\<close> as \<^verbatim>\<open>a b\<close>; both are read to their end.
\<close>

theorem ccstrlist_wide_blank_run_loses_tokens:
  "scan_value example_env Ccstrlist ''a b  c'' 0 (Some Foo_bar) (Custom 0) [] 1024 quiet_store
     = Inr (quiet_store\<lparr>option_list := [Foo_bar_as (Custom 0) (ccstr_value ''a b c'')],
                        any_set := True\<rparr>, 6, [])
   \<and> scan_value example_env Ccstrlist ''a  b c'' 0 (Some Foo_bar) (Custom 0) [] 1024 quiet_store
     = Inr (quiet_store\<lparr>option_list := [Foo_bar_as (Custom 0) (ccstr_value ''a b'')],
                        any_set := True\<rparr>, 6, [])"
  by code_simp

subsection \<open>The legacy list\<close>

text \<open>
  C3, as the code has it: the separator between owner and member is fixed
  once for the whole input, \<^verbatim>\<open>:\<close> if \<^verbatim>\<open>::\<close> occurs anywhere in it and \<^verbatim>\<open>.\<close>
  otherwise. The input \<^verbatim>\<open>Foo.bar,Baz::qux\<close> gives exactly two boolean
  \<^verbatim>\<open>compileonly\<close> records: the first has the owner \<^verbatim>\<open>Foo/bar\<close> and accepts any
  member, the second has the owner \<^verbatim>\<open>Baz\<close> and the member \<^verbatim>\<open>qux\<close>; the input
  \<^verbatim>\<open>Foo.bar\<close> alone gives the owner \<^verbatim>\<open>Foo\<close> and the member \<^verbatim>\<open>bar\<close>. The copy loop
  turns \<^verbatim>\<open>.\<close> into \<^verbatim>\<open>/\<close> in every name it copies; when \<^verbatim>\<open>::\<close> occurs nowhere in
  the input the loop stops at each \<^verbatim>\<open>.\<close>, so names are then copied unchanged,
  and a translation happens only when \<^verbatim>\<open>::\<close> occurs in the input.
\<close>

theorem compile_only_separator_is_fixed_per_input:
  "parse_compile_only example_env ''Foo.bar,Baz::qux'' quiet_store
     = Inr (quiet_store
            \<lparr>option_list :=
               [\<lparr>class_mode = Exact, class_name = Some ''Baz'',
                 method_mode = Exact, method_name = Some ''qux'', signature = None,
                 m_option = CompileOnly, m_type = Bool, m_u = Some (bool_value True)\<rparr>,
                \<lparr>class_mode = Exact, class_name = Some ''Foo/bar'',
                 method_mode = Any, method_name = Some [], signature = None,
                 m_option = CompileOnly, m_type = Bool, m_u = Some (bool_value True)\<rparr>],
             any_set := True\<rparr>)
   \<and> parse_compile_only example_env ''Foo.bar'' quiet_store
     = Inr (quiet_store
            \<lparr>option_list :=
               [\<lparr>class_mode = Exact, class_name = Some ''Foo'',
                 method_mode = Exact, method_name = Some ''bar'', signature = None,
                 m_option = CompileOnly, m_type = Bool, m_u = Some (bool_value True)\<rparr>],
             any_set := True\<rparr>)
   \<and> (copy_name (method_separator input) i line = (name, rest) \<longrightarrow>
        rest = drop (length name) line
        \<and> (have_colon input \<longrightarrow> name = map dot_to_slash (take (length name) line))
        \<and> (\<not> have_colon input \<longrightarrow> name = take (length name) line))"
proof (intro conjI impI)
  show "parse_compile_only example_env ''Foo.bar,Baz::qux'' quiet_store
     = Inr (quiet_store
            \<lparr>option_list :=
               [\<lparr>class_mode = Exact, class_name = Some ''Baz'',
                 method_mode = Exact, method_name = Some ''qux'', signature = None,
                 m_option = CompileOnly, m_type = Bool, m_u = Some (bool_value True)\<rparr>,
                \<lparr>class_mode = Exact, class_name = Some ''Foo/bar'',
                 method_mode = Any, method_name = Some [], signature = None,
                 m_option = CompileOnly, m_type = Bool, m_u = Some (bool_value True)\<rparr>],
             any_set := True\<rparr>)"
    by code_simp
next
  show "parse_compile_only example_env ''Foo.bar'' quiet_store
     = Inr (quiet_store
            \<lparr>option_list :=
               [\<lparr>class_mode = Exact, class_name = Some ''Foo'',
                 method_mode = Exact, method_name = Some ''bar'', signature = None,
                 m_option = CompileOnly, m_type = Bool, m_u = Some (bool_value True)\<rparr>],
             any_set := True\<rparr>)"
    by code_simp
next
  assume c: "copy_name (method_separator input) i line = (name, rest)"
  from copy_name_translates [OF c] show "rest = drop (length name) line"
    by simp
  from copy_name_translates [OF c]
  show "name = map dot_to_slash (take (length name) line)"
    by simp
  assume "\<not> have_colon input"
  with c have "copy_name CHR ''.'' i line = (name, rest)"
    by (simp add: method_separator_def)
  then show "name = take (length name) line"
    by (rule copy_name_dot_unchanged)
qed

theorem compile_only_separator_is_fixed_per_input_witness:
  "copy_name (method_separator ''Foo.bar,Baz::qux'') 0 ''Foo.bar,Baz::qux'' = (''Foo/bar'', '',Baz::qux'')
   \<and> have_colon ''Foo.bar,Baz::qux''
   \<and> ''Foo/bar'' = map dot_to_slash (take (length ''Foo/bar'') ''Foo.bar,Baz::qux'')
   \<and> copy_name (method_separator ''Foo.bar'') 0 ''Foo.bar'' = (''Foo'', ''.bar'')
   \<and> \<not> have_colon ''Foo.bar''
   \<and> ''Foo'' = take (length ''Foo'') ''Foo.bar''"
proof -
  have 1: "copy_name (method_separator ''Foo.bar,Baz::qux'') 0 ''Foo.bar,Baz::qux''
             = (''Foo/bar'', '',Baz::qux'')"
    by code_simp
  have 2: "have_colon ''Foo.bar,Baz::qux''"
    by code_simp
  have 3: "copy_name (method_separator ''Foo.bar'') 0 ''Foo.bar'' = (''Foo'', ''.bar'')"
    by code_simp
  have 4: "\<not> have_colon ''Foo.bar''"
    by code_simp
  from compile_only_separator_is_fixed_per_input
         [of "''Foo.bar,Baz::qux''" 0 "''Foo.bar,Baz::qux''" "''Foo/bar''" "'',Baz::qux''"] 1 2
  have 5: "''Foo/bar'' = map dot_to_slash (take (length ''Foo/bar'') ''Foo.bar,Baz::qux'')"
    by blast
  from compile_only_separator_is_fixed_per_input
         [of "''Foo.bar''" 0 "''Foo.bar''" "''Foo''" "''.bar''"] 3 4
  have 6: "''Foo'' = take (length ''Foo'') ''Foo.bar''"
    by blast
  from 1 2 3 4 5 6 show ?thesis
    by blast
qed

text \<open>
  The sentence of the specification fails: with \<^verbatim>\<open>::\<close> in the input the first record of
  \<^verbatim>\<open>Foo.bar,Baz::qux\<close> has the owner \<^verbatim>\<open>Foo/bar\<close> and no member name, and the
  \<^verbatim>\<open>.\<close> is translated although \<^verbatim>\<open>::\<close> occurs; without \<^verbatim>\<open>::\<close>, as in \<^verbatim>\<open>a.b\<close>,
  nothing is translated.
\<close>

theorem compile_only_mixed_separators_counterexample:
  "parse_compile_only example_env ''Foo.bar,Baz::qux'' quiet_store
     = Inr (quiet_store
            \<lparr>option_list :=
               [\<lparr>class_mode = Exact, class_name = Some ''Baz'',
                 method_mode = Exact, method_name = Some ''qux'', signature = None,
                 m_option = CompileOnly, m_type = Bool, m_u = Some (bool_value True)\<rparr>,
                \<lparr>class_mode = Exact, class_name = Some ''Foo/bar'',
                 method_mode = Any, method_name = Some [], signature = None,
                 m_option = CompileOnly, m_type = Bool, m_u = Some (bool_value True)\<rparr>],
             any_set := True\<rparr>)
   \<and> have_colon ''Foo.bar,Baz::qux''
   \<and> fst (copy_name (method_separator ''Foo.bar,Baz::qux'') 0 ''Foo.bar,Baz::qux'') = ''Foo/bar''
   \<and> \<not> have_colon ''a.b''
   \<and> fst (copy_name (method_separator ''a.b'') 0 ''a.b'') = ''a''"
  by code_simp

subsection \<open>Lines that are not accepted\<close>




end
